theory Spec2Isabelle
  imports Main "HOL-Library.Multiset"
begin

section \<open>gri: the application object and command line of \<^verbatim>\<open>src/gri/__main__.py\<close>\<close>

text \<open>
  The module holds the class \<^verbatim>\<open>App\<close> (construction of the server list, \<^verbatim>\<open>query\<close>,
  \<^verbatim>\<open>header\<close>, \<^verbatim>\<open>report\<close>) and the click command group \<^verbatim>\<open>cli\<close> with its subcommands
  \<^verbatim>\<open>owned\<close>, \<^verbatim>\<open>incoming\<close> and \<^verbatim>\<open>merged\<close>. Exceptions are values of a sum type, the
  mutable attributes of \<^verbatim>\<open>App\<close> are a record that every operation returns updated, and
  every call that leaves the module (the logger, the console, a server's query) is
  appended to a trace of events that is threaded through the operations.
\<close>

subsection \<open>Exceptions, events and the collaborating classes\<close>

text \<open>
  The exceptions the module names or can meet: \<^verbatim>\<open>sys.exit(n)\<close>, the \<^verbatim>\<open>SystemError\<close> that the
  constructor loop catches, the \<^verbatim>\<open>yaml.YAMLError\<close> that \<^verbatim>\<open>load_config\<close> catches,
  \<^verbatim>\<open>KeyError\<close> and \<^verbatim>\<open>IndexError\<close> of the subscripts, and \<open>Raised\<close> for any other
  exception of a library or collaborator, named by its class (a transport error, the
  \<^verbatim>\<open>ValueError\<close> of \<^verbatim>\<open>int()\<close>, the \<^verbatim>\<open>MarkupError\<close> of the console).
\<close>

datatype exn =
    SystemExit int
  | SystemError string
  | YAMLError string
  | KeyError string
  | IndexError
  | Raised string

fun is_YAMLError :: "exn \<Rightarrow> bool" where
  "is_YAMLError (YAMLError m) = True"
| "is_YAMLError e = False"

fun is_SystemError :: "exn \<Rightarrow> bool" where
  "is_SystemError (SystemError m) = True"
| "is_SystemError e = False"

text \<open>
  Modelled from the spec: the class \<^verbatim>\<open>Review\<close> of \<^verbatim>\<open>gri/review.py\<close> is not among the
  sources. An item is the pair of arguments of its constructor call
  \<^verbatim>\<open>Review(record, item)\<close>: the raw record and the server that returned it (the
  spec's origin server reference).
\<close>

datatype ('r, 's) Review = Review (data: 'r) (server: 's)

datatype danger_level = Normal | Moderate | Considerable | High | VeryHigh

fun danger_rank :: "danger_level \<Rightarrow> nat" where
  "danger_rank Normal = 0"
| "danger_rank Moderate = 1"
| "danger_rank Considerable = 2"
| "danger_rank High = 3"
| "danger_rank VeryHigh = 4"

text \<open>
  The calls that leave the module: the four levels of the logger, the console
  (\<^verbatim>\<open>term.print\<close> of a string or of the table with its title and rows,
  \<^verbatim>\<open>term.save_html\<close>) and the query of a server. An event is recorded when the call
  is made, whether the call then returns or raises. The warning of line 177 is
  recorded with its format string; its argument, the dictionary of options, is not
  rendered. \<open>Abandon\<close> stands for \<^verbatim>\<open>review.abandon(dry=...)\<close>, the one mutating call of
  the spec's interface; in the source it occurs only inside the comment of lines 102
  to 104.
\<close>

datatype ('r, 's) event =
    LOG_error exn
  | LOG_warning string
  | LOG_info string
  | LOG_debug 'r
  | Term_print string
  | Term_print_table string "string list list"
  | Term_save_html string
  | Query 's string
  | Abandon "('r, 's) Review" bool

fun is_Abandon :: "('r, 's) event \<Rightarrow> bool" where
  "is_Abandon (Abandon r d) = True"
| "is_Abandon e = False"

text \<open>
  One entry of the \<^verbatim>\<open>servers\<close> list of \<^verbatim>\<open>~/.gertty.yaml\<close> is a dictionary; the
  configuration is the value stored under the key \<^verbatim>\<open>"servers"\<close>, if any. The document
  that \<^verbatim>\<open>yaml.safe_load\<close> returns is such a mapping, or \<^verbatim>\<open>None\<close> for an empty file.
\<close>

type_synonym server_cfg = "(string \<times> string) list"

type_synonym config = "server_cfg list option"

text \<open>
  What the module imports and calls but does not define is a parameter of the model:
  whether \<^verbatim>\<open>open\<close> of the configuration file raises, the outcome of
  \<^verbatim>\<open>yaml.safe_load\<close> on it, Python's \<^verbatim>\<open>int()\<close> on a string, the constructor and the
  \<^verbatim>\<open>name\<close> and \<^verbatim>\<open>query\<close> members of \<^verbatim>\<open>GerritServer\<close> (\<^verbatim>\<open>gri/gerrit.py\<close>),
  \<^verbatim>\<open>Review.as_columns\<close>, and the console of the rich library: \<^verbatim>\<open>term.print\<close> of a
  string, \<^verbatim>\<open>term.print\<close> of the table with its title and rows, and
  \<^verbatim>\<open>term.save_html\<close> of a path, each of which returns (\<open>None\<close>) or raises. The
  console reads a string as markup and raises \<^verbatim>\<open>MarkupError\<close> on a closing tag that
  closes nothing. A server answers a query with a list of records or raises. The
  calls of the logger return: the logging module reports an error of a handler
  without raising it.

  Modelled from the spec: \<open>danger\<close>, \<open>age\<close> and \<open>number\<close> are the danger level, the age in
  whole days and the server-scoped identifier of an item (\<^verbatim>\<open>gri/review.py\<close> is not
  among the sources).
\<close>

record ('r, 's) collaborators =
  open_config :: "exn option"
  safe_load :: "exn + config option"
  term_print :: "string \<Rightarrow> exn option"
  term_print_table :: "string \<Rightarrow> string list list \<Rightarrow> exn option"
  term_save_html :: "string \<Rightarrow> exn option"
  py_int :: "string \<Rightarrow> exn + int"
  GerritServer :: "string \<Rightarrow> string \<Rightarrow> exn + 's"
  name :: "'s \<Rightarrow> string"
  server_query :: "'s \<Rightarrow> string \<Rightarrow> exn + 'r list"
  as_columns :: "('r, 's) Review \<Rightarrow> string list"
  danger :: "('r, 's) Review \<Rightarrow> danger_level"
  age :: "('r, 's) Review \<Rightarrow> int"
  number :: "('r, 's) Review \<Rightarrow> int"

record ('r, 's) App =
  cfg :: config
  servers :: "'s list"
  user :: string
  reviews :: "('r, 's) Review list"

type_synonym ('r, 's) trace = "('r, 's) event list"

subsection \<open>Formatting\<close>

text \<open>
  The decimal numeral that an f-string makes of an integer (\<open>digit\<close> is only applied
  below ten), and \<^verbatim>\<open>sep.join\<close>.
\<close>

definition digit :: "nat \<Rightarrow> char" where
  "digit d = ''0123456789'' ! d"

fun str_nat :: "nat \<Rightarrow> string" where
  "str_nat n = (if n < 10 then [digit n] else str_nat (n div 10) @ [digit (n mod 10)])"

declare str_nat.simps [simp del]

definition str_int :: "int \<Rightarrow> string" where
  "str_int i = (if i < 0 then CHR ''-'' # str_nat (nat (- i)) else str_nat (nat i))"

fun join :: "string \<Rightarrow> string list \<Rightarrow> string" where
  "join sep [] = []"
| "join sep [x] = x"
| "join sep (x # y # ys) = x @ sep @ join sep (y # ys)"

subsection \<open>The class \<^verbatim>\<open>Config\<close>\<close>

text \<open>
  Lines 42 to 50: the file is opened, which may raise; a \<^verbatim>\<open>yaml.YAMLError\<close> of the
  parser is logged and followed by \<^verbatim>\<open>sys.exit(2)\<close>, any other exception of the parser
  is not caught.
\<close>

definition load_config :: "('r, 's) collaborators \<Rightarrow> ('r, 's) trace \<Rightarrow> (exn + config option) \<times> ('r, 's) trace" where
  "load_config c tr =
     (case open_config c of
        Some e \<Rightarrow> (Inl e, tr)
      | None \<Rightarrow>
          (case safe_load c of
             Inr doc \<Rightarrow> (Inr doc, tr)
           | Inl exc \<Rightarrow>
               (if is_YAMLError exc then (Inl (SystemExit 2), tr @ [LOG_error exc])
                else (Inl exc, tr))))"

text \<open>
  Lines 38 to 40: the dictionary is updated with the loaded document;
  \<^verbatim>\<open>dict.update(None)\<close> raises \<^verbatim>\<open>TypeError\<close>.
\<close>

definition Config :: "('r, 's) collaborators \<Rightarrow> ('r, 's) trace \<Rightarrow> (exn + config) \<times> ('r, 's) trace" where
  "Config c tr =
     (case load_config c tr of
        (Inl e, tr1) \<Rightarrow> (Inl e, tr1)
      | (Inr None, tr1) \<Rightarrow> (Inl (Raised ''TypeError''), tr1)
      | (Inr (Some d), tr1) \<Rightarrow> (Inr d, tr1))"

subsection \<open>\<^verbatim>\<open>App.__init__\<close> and \<^verbatim>\<open>App.header\<close>\<close>

text \<open>Python's \<^verbatim>\<open>xs[i]\<close>: an index below zero counts from the end.\<close>

definition subscript :: "'a list \<Rightarrow> int \<Rightarrow> exn + 'a" where
  "subscript xs i =
     (if 0 \<le> i \<and> i < int (length xs) then Inr (xs ! nat i)
      else if i < 0 \<and> - i \<le> int (length xs) then Inr (xs ! nat (int (length xs) + i))
      else Inl IndexError)"

definition getitem :: "server_cfg \<Rightarrow> string \<Rightarrow> exn + string" where
  "getitem d k = (case map_of d k of None \<Rightarrow> Inl (KeyError k) | Some v \<Rightarrow> Inr v)"

text \<open>
  The iterable of the loop of lines 59 to 63: all of \<^verbatim>\<open>cfg["servers"]\<close>, or the one
  entry \<^verbatim>\<open>cfg["servers"][int(server)]\<close>.
\<close>

definition configured :: "('r, 's) collaborators \<Rightarrow> config \<Rightarrow> string option \<Rightarrow> exn + server_cfg list" where
  "configured c cf server_opt =
     (case cf of
        None \<Rightarrow> Inl (KeyError ''servers'')
      | Some entries \<Rightarrow>
          (case server_opt of
             None \<Rightarrow> Inr entries
           | Some sv \<Rightarrow>
               (case py_int c sv of
                  Inl e \<Rightarrow> Inl e
                | Inr i \<Rightarrow>
                    (case subscript entries i of
                       Inl e \<Rightarrow> Inl e
                     | Inr srv \<Rightarrow> Inr [srv]))))"

text \<open>
  The body of the \<^verbatim>\<open>try\<close> of line 65 is the one expression
  \<^verbatim>\<open>GerritServer(url=srv["url"], name=srv["name"])\<close>: the two subscripts are evaluated
  first, then the constructor is called.
\<close>

definition construct :: "('r, 's) collaborators \<Rightarrow> server_cfg \<Rightarrow> exn + 's" where
  "construct c srv =
     (case getitem srv ''url'' of
        Inl e \<Rightarrow> Inl e
      | Inr url \<Rightarrow>
          (case getitem srv ''name'' of
             Inl e \<Rightarrow> Inl e
           | Inr nm \<Rightarrow> GerritServer c url nm))"

text \<open>
  The loop of lines 59 to 67. Only \<^verbatim>\<open>SystemError\<close> is caught (and logged); any other
  exception leaves the loop and the constructor of \<^verbatim>\<open>App\<close>.
\<close>

fun init_loop ::
  "('r, 's) collaborators \<Rightarrow> server_cfg list \<Rightarrow> 's list \<Rightarrow> ('r, 's) trace \<Rightarrow> (exn + 's list) \<times> ('r, 's) trace" where
  "init_loop c [] acc tr = (Inr acc, tr)"
| "init_loop c (srv # rest) acc tr =
     (case construct c srv of
        Inr s \<Rightarrow> init_loop c rest (acc @ [s]) tr
      | Inl exc \<Rightarrow>
          (if is_SystemError exc then init_loop c rest acc (tr @ [LOG_error exc])
           else (Inl exc, tr)))"

text \<open>The servers of a configuration that construct, and the errors logged for the others.\<close>

fun constructed :: "('r, 's) collaborators \<Rightarrow> server_cfg list \<Rightarrow> 's list" where
  "constructed c [] = []"
| "constructed c (srv # rest) =
     (case construct c srv of Inr s \<Rightarrow> s # constructed c rest | Inl e \<Rightarrow> constructed c rest)"

fun logged_errors :: "('r, 's) collaborators \<Rightarrow> server_cfg list \<Rightarrow> ('r, 's) trace" where
  "logged_errors c [] = []"
| "logged_errors c (srv # rest) =
     (case construct c srv of
        Inr s \<Rightarrow> logged_errors c rest
      | Inl e \<Rightarrow> LOG_error e # logged_errors c rest)"

fun caught :: "exn + 's \<Rightarrow> bool" where
  "caught (Inr s) = True"
| "caught (Inl e) = is_SystemError e"

text \<open>
  Lines 56 to 72. The header is printed last, by the console, which may raise.
\<close>

definition header :: "('r, 's) collaborators \<Rightarrow> ('r, 's) App \<Rightarrow> string" where
  "header c self =
     (let srv_list = join '' '' (map (name c) (servers self))
      in ''[dim]GRI using '' @ str_nat (length (servers self)) @ '' servers: '' @ srv_list @ ''[/]'')"

definition App_init ::
  "('r, 's) collaborators \<Rightarrow> string option \<Rightarrow> string \<Rightarrow> ('r, 's) trace \<Rightarrow> (exn + ('r, 's) App) \<times> ('r, 's) trace" where
  "App_init c server_opt usr tr =
     (case Config c tr of
        (Inl e, tr0) \<Rightarrow> (Inl e, tr0)
      | (Inr cf, tr0) \<Rightarrow>
          (case configured c cf server_opt of
             Inl e \<Rightarrow> (Inl e, tr0)
           | Inr entries \<Rightarrow>
               (case init_loop c entries [] tr0 of
                  (Inl e, tr1) \<Rightarrow> (Inl e, tr1)
                | (Inr [], tr1) \<Rightarrow> (Inl (SystemExit 1), tr1)
                | (Inr (s # ss), tr1) \<Rightarrow>
                    (let self = \<lparr>cfg = cf, servers = s # ss, user = usr, reviews = []\<rparr>
                     in (case term_print c (header c self) of
                           Some e \<Rightarrow> (Inl e, tr1 @ [Term_print (header c self)])
                         | None \<Rightarrow> (Inr self, tr1 @ [Term_print (header c self)]))))))"

subsection \<open>\<^verbatim>\<open>App.query\<close>\<close>

text \<open>
  Lines 76 to 80: the collection is emptied, then every server is queried in turn and
  each record it returns is appended as \<^verbatim>\<open>Review(record, item)\<close>. There is no
  \<^verbatim>\<open>try\<close>: an exception of \<^verbatim>\<open>item.query\<close> leaves the loop and the method.
\<close>

fun query_loop ::
  "('r, 's) collaborators \<Rightarrow> string \<Rightarrow> 's list \<Rightarrow> ('r, 's) App \<Rightarrow> ('r, 's) trace \<Rightarrow> (exn + ('r, 's) App) \<times> ('r, 's) trace" where
  "query_loop c q [] self tr = (Inr self, tr)"
| "query_loop c q (item # rest) self tr =
     (case server_query c item q of
        Inl e \<Rightarrow> (Inl e, tr @ [Query item q])
      | Inr records \<Rightarrow>
          query_loop c q rest
            (self\<lparr>reviews := reviews self @ map (\<lambda>record. Review record item) records\<rparr>)
            (tr @ [Query item q]))"

definition App_query ::
  "('r, 's) collaborators \<Rightarrow> string \<Rightarrow> ('r, 's) App \<Rightarrow> ('r, 's) trace \<Rightarrow> (exn + ('r, 's) App) \<times> ('r, 's) trace" where
  "App_query c q self tr = query_loop c q (servers self) (self\<lparr>reviews := []\<rparr>) tr"

text \<open>The merged collection the spec describes: the servers' items, one server after the other.\<close>

definition merged_items :: "('s \<Rightarrow> 'r list) \<Rightarrow> 's list \<Rightarrow> ('r, 's) Review list" where
  "merged_items recs ss = concat (map (\<lambda>s. map (\<lambda>r. Review r s) (recs s)) ss)"

subsection \<open>\<^verbatim>\<open>sorted\<close> and the order of the items\<close>

text \<open>
  Python's \<^verbatim>\<open>sorted\<close> returns a new list, compares with \<^verbatim>\<open>__lt__\<close> only and is
  stable. For a comparison that is a strict weak order its result is the stable
  insertion sort below: \<open>x\<close> goes behind every element that is smaller than it and in
  front of the first one that is not.
\<close>

fun insort_lt :: "('a \<Rightarrow> 'a \<Rightarrow> bool) \<Rightarrow> 'a \<Rightarrow> 'a list \<Rightarrow> 'a list" where
  "insort_lt lt x [] = [x]"
| "insort_lt lt x (y # ys) = (if lt y x then y # insort_lt lt x ys else x # y # ys)"

definition sorted_py :: "('a \<Rightarrow> 'a \<Rightarrow> bool) \<Rightarrow> 'a list \<Rightarrow> 'a list" where
  "sorted_py lt xs = foldr (insort_lt lt) xs []"

text \<open>
  Modelled from the spec: \<^verbatim>\<open>Review.__lt__\<close> (\<^verbatim>\<open>gri/review.py\<close>) is not among the
  sources. The order is the one of section 4.2 of the spec: danger level descending,
  then age descending, then identifier ascending.
\<close>

definition Review_lt :: "('r, 's) collaborators \<Rightarrow> ('r, 's) Review \<Rightarrow> ('r, 's) Review \<Rightarrow> bool" where
  "Review_lt c a b =
     (danger_rank (danger c b) < danger_rank (danger c a)
      \<or> (danger_rank (danger c a) = danger_rank (danger c b)
          \<and> (age c b < age c a \<or> (age c a = age c b \<and> number c a < number c b))))"

subsection \<open>\<^verbatim>\<open>App.report\<close>\<close>

text \<open>
  The loop of lines 100 to 106 over the sorted copy: one table row per item, one
  \<^verbatim>\<open>LOG.debug(review.data)\<close>, and the counter. Lines 102 to 104 are a comment and add
  nothing.
\<close>

fun report_loop ::
  "('r, 's) collaborators \<Rightarrow> ('r, 's) Review list \<Rightarrow> string list list \<Rightarrow> nat \<Rightarrow> ('r, 's) trace \<Rightarrow>
     (string list list \<times> nat) \<times> ('r, 's) trace" where
  "report_loop c [] table cnt tr = ((table, cnt), tr)"
| "report_loop c (review # rest) table cnt tr =
     report_loop c rest (table @ [as_columns c review]) (cnt + 1) (tr @ [LOG_debug (data review)])"

definition summary :: "nat \<Rightarrow> string option \<Rightarrow> string" where
  "summary cnt query =
     (let extra = (case query of
                     None \<Rightarrow> []
                   | Some q \<Rightarrow> if q \<noteq> [] then '' from: [cyan]'' @ q @ ''[/]'' else [])
      in ''[dim]-- '' @ str_nat cnt @ '' changes listed'' @ extra @ ''[/]'')"

text \<open>
  Lines 107 to 109: the table is printed, then the summary line. The title of the
  table and the query in the summary line reach the console as they are.
\<close>

definition print_report ::
  "('r, 's) collaborators \<Rightarrow> string \<Rightarrow> string list list \<Rightarrow> nat \<Rightarrow> string option \<Rightarrow> ('r, 's) trace \<Rightarrow>
     exn option \<times> ('r, 's) trace" where
  "print_report c title table cnt query tr =
     (case term_print_table c title table of
        Some e \<Rightarrow> (Some e, tr @ [Term_print_table title table])
      | None \<Rightarrow>
          (term_print c (summary cnt query),
           tr @ [Term_print_table title table, Term_print (summary cnt query)]))"

text \<open>Lines 91 to 109: what \<^verbatim>\<open>report\<close> does after its query step.\<close>

definition render ::
  "('r, 's) collaborators \<Rightarrow> string option \<Rightarrow> string \<Rightarrow> ('r, 's) App \<Rightarrow> ('r, 's) trace \<Rightarrow>
     (exn + ('r, 's) App) \<times> ('r, 's) trace" where
  "render c query title self tr =
     (case report_loop c (sorted_py (Review_lt c) (reviews self)) [] 0 tr of
        ((table, cnt), tr2) \<Rightarrow>
          (case print_report c title table cnt query tr2 of
             (Some e, tr3) \<Rightarrow> (Inl e, tr3)
           | (None, tr3) \<Rightarrow> (Inr self, tr3)))"

text \<open>Lines 88 and 89, the query step, then the rest.\<close>

definition App_report ::
  "('r, 's) collaborators \<Rightarrow> string option \<Rightarrow> string \<Rightarrow> ('r, 's) App \<Rightarrow> ('r, 's) trace \<Rightarrow>
     (exn + ('r, 's) App) \<times> ('r, 's) trace" where
  "App_report c query title self tr =
     (case (case query of
              None \<Rightarrow> (Inr self, tr)
            | Some q \<Rightarrow> if q \<noteq> [] then App_query c q self tr else (Inr self, tr)) of
        (Inl e, tr1) \<Rightarrow> (Inl e, tr1)
      | (Inr self1, tr1) \<Rightarrow> render c query title self1 tr1)"

text \<open>
  For a stored collection, after the query step of \<^verbatim>\<open>report\<close>: the rows of the table,
  the first exception of the two calls of the console if one raises, and what
  \<^verbatim>\<open>report\<close> sends to the logger and the console when both return.
\<close>

definition rows :: "('r, 's) collaborators \<Rightarrow> ('r, 's) App \<Rightarrow> string list list" where
  "rows c self = map (as_columns c) (sorted_py (Review_lt c) (reviews self))"

definition console_raises :: "('r, 's) collaborators \<Rightarrow> string option \<Rightarrow> string \<Rightarrow> ('r, 's) App \<Rightarrow> exn option" where
  "console_raises c query title self =
     (case term_print_table c title (rows c self) of
        Some e \<Rightarrow> Some e
      | None \<Rightarrow> term_print c (summary (length (reviews self)) query))"

definition rendered :: "('r, 's) collaborators \<Rightarrow> string option \<Rightarrow> string \<Rightarrow> ('r, 's) App \<Rightarrow> ('r, 's) trace" where
  "rendered c query title self =
     map (\<lambda>r. LOG_debug (data r)) (sorted_py (Review_lt c) (reviews self)) @
     [Term_print_table title (rows c self),
      Term_print (summary (length (reviews self)) query)]"

subsection \<open>The command group \<^verbatim>\<open>cli\<close> and its subcommands\<close>

datatype command = Owned | Incoming | Merged int

definition owned_query :: "string \<Rightarrow> string" where
  "owned_query u = ''status:open'' @ '' owner:'' @ u"

definition incoming_query :: "string \<Rightarrow> string" where
  "incoming_query u = ''reviewer:'' @ u @ '' status:open''"

definition merged_query :: "int \<Rightarrow> string \<Rightarrow> string" where
  "merged_query days u = '' status:merged -age:'' @ str_int days @ ''d'' @ '' owner:'' @ u"

definition owned ::
  "('r, 's) collaborators \<Rightarrow> ('r, 's) App \<Rightarrow> ('r, 's) trace \<Rightarrow> (exn + ('r, 's) App) \<times> ('r, 's) trace" where
  "owned c obj tr =
     (let title = (if user obj = ''self'' then ''Own reviews'' else ''Reviews owned by '' @ user obj)
      in App_report c (Some (owned_query (user obj))) title obj tr)"

definition incoming ::
  "('r, 's) collaborators \<Rightarrow> ('r, 's) App \<Rightarrow> ('r, 's) trace \<Rightarrow> (exn + ('r, 's) App) \<times> ('r, 's) trace" where
  "incoming c obj tr = App_report c (Some (incoming_query (user obj))) ''Merged Reviews'' obj tr"

definition merged ::
  "('r, 's) collaborators \<Rightarrow> int \<Rightarrow> ('r, 's) App \<Rightarrow> ('r, 's) trace \<Rightarrow> (exn + ('r, 's) App) \<times> ('r, 's) trace" where
  "merged c days obj tr =
     App_report c (Some (merged_query days (user obj)))
       (''Merged Reviews ('' @ str_int days @ ''d)'') obj tr"

fun invoke ::
  "('r, 's) collaborators \<Rightarrow> command \<Rightarrow> ('r, 's) App \<Rightarrow> ('r, 's) trace \<Rightarrow> (exn + ('r, 's) App) \<times> ('r, 's) trace" where
  "invoke c Owned obj tr = owned c obj tr"
| "invoke c Incoming obj tr = incoming c obj tr"
| "invoke c (Merged days) obj tr = merged c days obj tr"

text \<open>The chained subcommands run one after the other on the same \<^verbatim>\<open>ctx.obj\<close>.\<close>

fun invoke_chain ::
  "('r, 's) collaborators \<Rightarrow> command list \<Rightarrow> ('r, 's) App \<Rightarrow> ('r, 's) trace \<Rightarrow> (exn + ('r, 's) App) \<times> ('r, 's) trace" where
  "invoke_chain c [] obj tr = (Inr obj, tr)"
| "invoke_chain c (cmd # rest) obj tr =
     (case invoke c cmd obj tr of
        (Inl e, tr1) \<Rightarrow> (Inl e, tr1)
      | (Inr obj1, tr1) \<Rightarrow> invoke_chain c rest obj1 tr1)"

text \<open>Lines 181 and 182: a user name with a space in it is put between double quotes.\<close>

definition quote_user :: "string \<Rightarrow> string" where
  "quote_user usr = (if CHR '' '' \<in> set usr then [CHR 0x22] @ usr @ [CHR 0x22] else usr)"

text \<open>Lines 190 and 191: \<^verbatim>\<open>if output: term.save_html(path=output, ...)\<close>.\<close>

definition save_output ::
  "('r, 's) collaborators \<Rightarrow> string option \<Rightarrow> ('r, 's) trace \<Rightarrow> exn option \<times> ('r, 's) trace" where
  "save_output c output tr =
     (case output of
        None \<Rightarrow> (None, tr)
      | Some path \<Rightarrow>
          if path \<noteq> [] then (term_save_html c path, tr @ [Term_save_html path]) else (None, tr))"

text \<open>
  The group callback of lines 172 to 191. \<^verbatim>\<open>ctx.invoked_subcommand\<close> is \<^verbatim>\<open>None\<close> when
  the command line names no subcommand, and the callback itself then invokes
  \<^verbatim>\<open>owned\<close>. The options \<^verbatim>\<open>abandon\<close>, \<^verbatim>\<open>force\<close> and \<^verbatim>\<open>abandon_age\<close> are accepted and
  not read again; \<^verbatim>\<open>debug\<close> only sets the level of the logger.
\<close>

definition cli_callback ::
  "('r, 's) collaborators \<Rightarrow> bool \<Rightarrow> string option \<Rightarrow> bool \<Rightarrow> bool \<Rightarrow> int \<Rightarrow> string \<Rightarrow> string option \<Rightarrow>
     command list \<Rightarrow> (exn + ('r, 's) App) \<times> ('r, 's) trace" where
  "cli_callback c debug server_opt abandon force abandon_age usr output cmds =
     (case App_init c server_opt (quote_user usr) [LOG_warning ''Called with %s''] of
        (Inl e, tr1) \<Rightarrow> (Inl e, tr1)
      | (Inr obj, tr1) \<Rightarrow>
          (case (case cmds of
                   [] \<Rightarrow> owned c obj
                          (tr1 @ [LOG_info ''I was invoked without subcommand, assuming implicit `owned` command''])
                 | cmd # rest \<Rightarrow> (Inr obj, tr1)) of
             (Inl e, tr2) \<Rightarrow> (Inl e, tr2)
           | (Inr obj2, tr2) \<Rightarrow>
               (case save_output c output tr2 of
                  (Some e, tr3) \<Rightarrow> (Inl e, tr3)
                | (None, tr3) \<Rightarrow> (Inr obj2, tr3))))"

text \<open>
  A run of the command line: the callback, then the chained subcommands, which click
  invokes in order after the callback has returned.
\<close>

definition cli ::
  "('r, 's) collaborators \<Rightarrow> bool \<Rightarrow> string option \<Rightarrow> bool \<Rightarrow> bool \<Rightarrow> int \<Rightarrow> string \<Rightarrow> string option \<Rightarrow>
     command list \<Rightarrow> (exn + ('r, 's) App) \<times> ('r, 's) trace" where
  "cli c debug server_opt abandon force abandon_age usr output cmds =
     (case cli_callback c debug server_opt abandon force abandon_age usr output cmds of
        (Inl e, tr) \<Rightarrow> (Inl e, tr)
      | (Inr obj, tr) \<Rightarrow> invoke_chain c cmds obj tr)"

text \<open>
  The query string of each subcommand for a given user, and the subcommands a command
  line runs: \<^verbatim>\<open>owned\<close> when it names none.
\<close>

fun command_query :: "command \<Rightarrow> string \<Rightarrow> string" where
  "command_query Owned u = owned_query u"
| "command_query Incoming u = incoming_query u"
| "command_query (Merged days) u = merged_query days u"

definition effective :: "command list \<Rightarrow> command list" where
  "effective cmds = (case cmds of [] \<Rightarrow> [Owned] | cmd # rest \<Rightarrow> cmds)"

text \<open>
  The queries a run has sent to the servers, in order; a trace is answered when no
  query in it made its server raise.
\<close>

fun queries_of :: "('r, 's) trace \<Rightarrow> ('s \<times> string) list" where
  "queries_of [] = []"
| "queries_of (Query s q # tr) = (s, q) # queries_of tr"
| "queries_of (e # tr) = queries_of tr"

definition answered :: "('r, 's) collaborators \<Rightarrow> ('r, 's) trace \<Rightarrow> bool" where
  "answered c tr = list_all (\<lambda>(s, q). \<not> isl (server_query c s q)) (queries_of tr)"

subsection \<open>A concrete installation\<close>

text \<open>
  Two servers \<^verbatim>\<open>A\<close> and \<^verbatim>\<open>B\<close>, a server being known by its name. A raw record is
  (number, age in days, score, work in progress); the records are those of the
  example scenario of the spec. The console raises \<^verbatim>\<open>MarkupError\<close> on a text that
  holds the closing tag \<^verbatim>\<open>[/x]\<close>, a tag that no text of the module opens, and returns
  on every other text.
\<close>

type_synonym raw = "int \<times> int \<times> int \<times> bool"

fun starts_with :: "string \<Rightarrow> string \<Rightarrow> bool" where
  "starts_with [] text = True"
| "starts_with (p # ps) [] = False"
| "starts_with (p # ps) (x # xs) = (p = x \<and> starts_with ps xs)"

fun holds :: "string \<Rightarrow> string \<Rightarrow> bool" where
  "holds pat [] = starts_with pat []"
| "holds pat (x # xs) = (starts_with pat (x # xs) \<or> holds pat xs)"

definition demo_console :: "string \<Rightarrow> exn option" where
  "demo_console text = (if holds ''[/x]'' text then Some (Raised ''MarkupError'') else None)"

fun demo_console_all :: "string list \<Rightarrow> exn option" where
  "demo_console_all [] = None"
| "demo_console_all (text # texts) =
     (case demo_console text of Some e \<Rightarrow> Some e | None \<Rightarrow> demo_console_all texts)"

definition demo_danger :: "(raw, string) Review \<Rightarrow> danger_level" where
  "demo_danger r =
     (case data r of
        (n, days, score, wip) \<Rightarrow>
          if wip then (if score < 0 then Moderate else Normal)
          else if score < 0 \<and> 100 \<le> days then VeryHigh
          else if score < 0 \<and> 90 \<le> days then High
          else if score < 0 then Considerable
          else Normal)"

definition demo :: "(raw, string) collaborators" where
  "demo =
     \<lparr>open_config = None,
      safe_load =
        Inr (Some (Some [[(''url'', ''https://a.example/''), (''name'', ''A'')],
                         [(''url'', ''https://b.example/''), (''name'', ''B'')]])),
      term_print = demo_console,
      term_print_table = (\<lambda>title table. demo_console_all (title # concat table)),
      term_save_html = (\<lambda>path. None),
      py_int = (\<lambda>s. if s = ''0'' then Inr 0 else if s = ''1'' then Inr 1 else Inl (Raised ''ValueError'')),
      GerritServer = (\<lambda>url nm. Inr nm),
      name = (\<lambda>s. s),
      server_query =
        (\<lambda>s q. if s = ''A'' then Inr [(101, 5, 1, False), (102, 95, - 1, False), (103, 120, - 2, False)]
                else Inr [(7, 200, - 2, True)]),
      as_columns = (\<lambda>r. [str_int (fst (data r)), server r]),
      danger = demo_danger,
      age = (\<lambda>r. fst (snd (data r))),
      number = (\<lambda>r. fst (data r))\<rparr>"

text \<open>The same installation with server \<^verbatim>\<open>A\<close> unreachable when queried.\<close>

definition demo_unreachable :: "(raw, string) collaborators" where
  "demo_unreachable =
     demo\<lparr>server_query :=
            (\<lambda>s q. if s = ''A'' then Inl (Raised ''ConnectionError'') else server_query demo s q)\<rparr>"

text \<open>The same installation with no credentials for server \<^verbatim>\<open>A\<close>, or for both.\<close>

definition demo_no_credentials :: "(raw, string) collaborators" where
  "demo_no_credentials =
     demo\<lparr>GerritServer :=
            (\<lambda>url nm. if nm = ''A'' then Inl (SystemError ''Unable to load credentials'') else Inr nm)\<rparr>"

definition demo_no_server :: "(raw, string) collaborators" where
  "demo_no_server = demo\<lparr>GerritServer := (\<lambda>url nm. Inl (SystemError ''Unable to load credentials''))\<rparr>"

text \<open>The first entry of the configuration lacks its \<^verbatim>\<open>name\<close>.\<close>

definition demo_nameless :: "(raw, string) collaborators" where
  "demo_nameless =
     demo\<lparr>safe_load :=
            Inr (Some (Some [[(''url'', ''https://a.example/'')],
                             [(''url'', ''https://b.example/''), (''name'', ''B'')]]))\<rparr>"

text \<open>The constructor of server \<^verbatim>\<open>A\<close> raises an exception that is not a \<^verbatim>\<open>SystemError\<close>.\<close>

definition demo_ctor_raises :: "(raw, string) collaborators" where
  "demo_ctor_raises =
     demo\<lparr>GerritServer := (\<lambda>url nm. if nm = ''A'' then Inl (Raised ''ConnectionError'') else Inr nm)\<rparr>"

definition demo_app :: "(raw, string) App" where
  "demo_app = \<lparr>cfg = None, servers = [''A'', ''B''], user = ''self'', reviews = []\<rparr>"

text \<open>The four items of the scenario, in the order the two servers return them.\<close>

definition demo_reviews :: "(raw, string) Review list" where
  "demo_reviews =
     [Review (101, 5, 1, False) ''A'', Review (102, 95, - 1, False) ''A'',
      Review (103, 120, - 2, False) ''A'', Review (7, 200, - 2, True) ''B'']"

section \<open>Properties of the operations\<close>

subsection \<open>Decimal numerals\<close>




subsection \<open>Traces and the configuration\<close>

lemma queries_of_append: "queries_of (tr @ tr') = queries_of tr @ queries_of tr'"
  by (induction tr rule: queries_of.induct) simp_all

lemma queries_of_debug: "queries_of (map (\<lambda>r. LOG_debug (data r)) rs) = []"
  by (induction rs) simp_all

lemma save_output_Abandon: "filter is_Abandon (snd (save_output c output tr)) = filter is_Abandon tr"
  by (simp add: save_output_def split: option.splits)

lemma save_output_queries: "queries_of (snd (save_output c output tr)) = queries_of tr"
  by (simp add: save_output_def queries_of_append split: option.splits)

lemma load_config_queries: "queries_of (snd (load_config c tr)) = queries_of tr"
  by (simp add: load_config_def queries_of_append split: option.splits sum.splits)

lemma load_config_Abandon: "filter is_Abandon (snd (load_config c tr)) = filter is_Abandon tr"
  by (simp add: load_config_def split: option.splits sum.splits)

lemma Config_queries: "queries_of (snd (Config c tr)) = queries_of tr"
  using load_config_queries [of c tr]
  by (cases "load_config c tr") (simp add: Config_def split: sum.splits option.splits)

lemma Config_Abandon: "filter is_Abandon (snd (Config c tr)) = filter is_Abandon tr"
  using load_config_Abandon [of c tr]
  by (cases "load_config c tr") (simp add: Config_def split: sum.splits option.splits)

lemma Config_Inr: "Config c tr = (Inr cf, tr0) \<Longrightarrow> tr0 = tr"
  by (auto simp: Config_def load_config_def split: option.splits sum.splits if_splits)

subsection \<open>Construction of the servers\<close>

lemma init_loop_Inr:
  "fst (init_loop c entries acc tr) = Inr ss \<Longrightarrow> ss = acc @ constructed c entries"
proof (induction entries arbitrary: acc tr)
  case Nil
  then show ?case by simp
next
  case (Cons srv rest)
  show ?case
  proof (cases "construct c srv")
    case (Inr s)
    then have "fst (init_loop c rest (acc @ [s]) tr) = Inr ss" using Cons.prems by simp
    then have "ss = (acc @ [s]) @ constructed c rest" by (rule Cons.IH)
    then show ?thesis using Inr by simp
  next
    case (Inl exc)
    then have "is_SystemError exc" using Cons.prems by (auto split: if_splits)
    then have "fst (init_loop c rest acc (tr @ [LOG_error exc])) = Inr ss" using Cons.prems Inl by simp
    then have "ss = acc @ constructed c rest" by (rule Cons.IH)
    then show ?thesis using Inl by simp
  qed
qed

lemma init_loop_caught:
  "\<forall>srv\<in>set entries. caught (construct c srv) \<Longrightarrow>
   init_loop c entries acc tr = (Inr (acc @ constructed c entries), tr @ logged_errors c entries)"
  by (induction entries arbitrary: acc tr) (auto split: sum.splits)

lemma constructed_Nil: "\<forall>srv\<in>set entries. isl (construct c srv) \<Longrightarrow> constructed c entries = []"
  by (induction entries) (auto split: sum.splits)

lemma set_constructed: "set (constructed c entries) = {s. \<exists>srv\<in>set entries. construct c srv = Inr s}"
  by (induction entries) (auto split: sum.splits)

lemma init_loop_queries: "queries_of (snd (init_loop c entries acc tr)) = queries_of tr"
  by (induction entries arbitrary: acc tr) (auto split: sum.splits simp: queries_of_append)

lemma init_loop_Abandon: "filter is_Abandon (snd (init_loop c entries acc tr)) = filter is_Abandon tr"
  by (induction entries arbitrary: acc tr) (auto split: sum.splits)

lemma init_loop_queries_eq: "init_loop c entries acc tr = (r, tr1) \<Longrightarrow> queries_of tr1 = queries_of tr"
  using init_loop_queries [of c entries acc tr] by simp

lemma init_loop_Abandon_eq:
  "init_loop c entries acc tr = (r, tr1) \<Longrightarrow> filter is_Abandon tr1 = filter is_Abandon tr"
  using init_loop_Abandon [of c entries acc tr] by simp

lemma init_loop_aborts:
  assumes "\<forall>srv\<in>set pre. caught (construct c srv)"
    and "construct c srv = Inl e" and "\<not> is_SystemError e"
  shows "init_loop c (pre @ srv # post) acc tr = (Inl e, tr @ logged_errors c pre)"
  using assms(1)
proof (induction pre arbitrary: acc tr)
  case Nil
  then show ?case using assms(2,3) by simp
next
  case (Cons p pre)
  then show ?case by (cases "construct c p") simp_all
qed

lemma App_init_queries: "queries_of (snd (App_init c sv usr tr)) = queries_of tr"
proof -
  obtain r tr0 where cf: "Config c tr = (r, tr0)" by (cases "Config c tr")
  have tr0: "queries_of tr0 = queries_of tr" using Config_queries [of c tr] cf by simp
  show ?thesis
    using cf tr0
    by (auto simp: App_init_def Let_def queries_of_append
        split: sum.splits prod.splits list.splits option.splits dest: init_loop_queries_eq)
qed

lemma App_init_Abandon: "filter is_Abandon (snd (App_init c sv usr tr)) = filter is_Abandon tr"
proof -
  obtain r tr0 where cf: "Config c tr = (r, tr0)" by (cases "Config c tr")
  have tr0: "filter is_Abandon tr0 = filter is_Abandon tr" using Config_Abandon [of c tr] cf by simp
  show ?thesis
    using cf tr0
    by (auto simp: App_init_def Let_def
        split: sum.splits prod.splits list.splits option.splits dest: init_loop_Abandon_eq)
qed

lemma App_init_servers: "fst (App_init c sv usr tr) = Inr self \<Longrightarrow> servers self \<noteq> [] \<and> user self = usr"
  by (auto simp: App_init_def Let_def split: sum.splits prod.splits list.splits option.splits)

lemma App_init_fails:
  assumes "fst (Config c tr) = Inr cf" "configured c cf sv = Inr entries"
    and "\<forall>srv\<in>set entries. isl (construct c srv)"
  shows "\<exists>e. fst (App_init c sv usr tr) = Inl e"
proof -
  obtain tr0 where cf: "Config c tr = (Inr cf, tr0)" using assms(1) by (cases "Config c tr") simp
  show ?thesis
  proof (cases "init_loop c entries [] tr0")
    case (Pair r tr1)
    show ?thesis
    proof (cases r)
      case (Inl e)
      then show ?thesis using assms cf Pair by (simp add: App_init_def)
    next
      case (Inr ss)
      then have "ss = [] @ constructed c entries" using init_loop_Inr [of c entries "[]" tr0 ss] Pair by simp
      then have "ss = []" using constructed_Nil [OF assms(3)] by simp
      then show ?thesis using assms cf Pair Inr by (simp add: App_init_def)
    qed
  qed
qed

lemma cli_init_fails:
  "fst (App_init c sv (quote_user usr) [LOG_warning ''Called with %s'']) = Inl e \<Longrightarrow>
   cli c debug sv abandon force abandon_age usr output cmds =
     (Inl e, snd (App_init c sv (quote_user usr) [LOG_warning ''Called with %s'']))"
  by (cases "App_init c sv (quote_user usr) [LOG_warning ''Called with %s'']")
     (simp add: cli_def cli_callback_def)

subsection \<open>The loop of \<^verbatim>\<open>App.query\<close>\<close>

lemma query_loop_all_succeed:
  "(\<And>s. s \<in> set ss \<Longrightarrow> server_query c s q = Inr (recs s)) \<Longrightarrow>
   query_loop c q ss self tr =
     (Inr (self\<lparr>reviews := reviews self @ merged_items recs ss\<rparr>), tr @ map (\<lambda>s. Query s q) ss)"
  by (induction ss arbitrary: self tr) (simp_all add: merged_items_def)

lemma length_merged_items: "length (merged_items recs ss) = sum_list (map (\<lambda>s. length (recs s)) ss)"
  by (induction ss) (simp_all add: merged_items_def)

lemma server_merged_items:
  "map server (merged_items recs ss) = concat (map (\<lambda>s. replicate (length (recs s)) s) ss)"
  by (induction ss) (simp_all add: merged_items_def map_replicate_const comp_def)

lemma data_merged_items: "map data (merged_items recs ss) = concat (map recs ss)"
  by (induction ss) (simp_all add: merged_items_def comp_def)

lemma query_loop_fails:
  "(\<And>s. s \<in> set pre \<Longrightarrow> server_query c s q = Inr (recs s)) \<Longrightarrow>
   server_query c item q = Inl e \<Longrightarrow>
   query_loop c q (pre @ item # post) self tr = (Inl e, tr @ map (\<lambda>s. Query s q) (pre @ [item]))"
  by (induction pre arbitrary: self tr) simp_all

lemma query_loop_frame:
  "query_loop c q ss self tr = (Inr self', tr') \<Longrightarrow>
   cfg self' = cfg self \<and> servers self' = servers self \<and> user self' = user self"
  by (induction ss arbitrary: self tr) (auto split: sum.splits)

lemma query_loop_Abandon:
  "filter is_Abandon (snd (query_loop c q ss self tr)) = filter is_Abandon tr"
  by (induction ss arbitrary: self tr) (auto split: sum.splits)

lemma query_loop_queries:
  "set (queries_of (snd (query_loop c q ss self tr))) \<subseteq> set (queries_of tr) \<union> (\<lambda>s. (s, q)) ` set ss"
proof (induction ss arbitrary: self tr)
  case Nil
  then show ?case by simp
next
  case (Cons item rest)
  show ?case
  proof (cases "server_query c item q")
    case (Inl e)
    then show ?thesis by (auto simp: queries_of_append)
  next
    case (Inr records)
    then show ?thesis
      using Cons.IH [of "self\<lparr>reviews := reviews self @ map (\<lambda>record. Review record item) records\<rparr>" "tr @ [Query item q]"]
      by (auto simp: queries_of_append)
  qed
qed

lemma query_loop_Inr:
  "fst (query_loop c q ss self tr) = Inr self' \<Longrightarrow>
   queries_of (snd (query_loop c q ss self tr)) = queries_of tr @ map (\<lambda>s. (s, q)) ss"
proof (induction ss arbitrary: self tr)
  case Nil
  then show ?case by simp
next
  case (Cons item rest)
  then show ?case
    by (cases "server_query c item q") (simp_all add: queries_of_append)
qed

lemma answered_append: "answered c (tr @ tr') = (answered c tr \<and> answered c tr')"
  by (simp add: answered_def queries_of_append)

lemma answered_no_queries: "queries_of tr' = queries_of tr \<Longrightarrow> answered c tr' = answered c tr"
  by (simp add: answered_def)

lemma answered_D:
  "answered c tr \<Longrightarrow> (s, q) \<in> set (queries_of tr) \<Longrightarrow> server_query c s q = Inl e \<Longrightarrow> False"
  by (auto simp: answered_def list_all_iff)

lemma answered_I:
  "(\<And>s q e. (s, q) \<in> set (queries_of tr) \<Longrightarrow> server_query c s q = Inl e \<Longrightarrow> False) \<Longrightarrow> answered c tr"
  unfolding answered_def list_all_iff
  by (auto simp: isl_def)

lemma query_loop_propagates:
  "answered c tr \<Longrightarrow> (s, q') \<in> set (queries_of (snd (query_loop c q ss self tr))) \<Longrightarrow>
   server_query c s q' = Inl e \<Longrightarrow> fst (query_loop c q ss self tr) = Inl e"
proof (induction ss arbitrary: self tr)
  case Nil
  then show ?case using answered_D by fastforce
next
  case (Cons item rest)
  show ?case
  proof (cases "server_query c item q")
    case (Inl e0)
    then have "(s, q') \<in> set (queries_of tr) \<or> (s, q') = (item, q)"
      using Cons.prems(2) by (auto simp: queries_of_append)
    then show ?thesis using Inl Cons.prems(1,3) answered_D by fastforce
  next
    case (Inr records)
    have "answered c (tr @ [Query item q])"
      using Cons.prems(1) Inr by (simp add: answered_append) (simp add: answered_def)
    then show ?thesis using Cons.IH Cons.prems(2,3) Inr by simp
  qed
qed

lemma App_query_frame:
  "fst (App_query c q self tr) = Inr self' \<Longrightarrow>
   cfg self' = cfg self \<and> servers self' = servers self \<and> user self' = user self"
  using query_loop_frame [of c q "servers self" "self\<lparr>reviews := []\<rparr>" tr self' "snd (App_query c q self tr)"]
  by (simp add: App_query_def prod_eq_iff)

lemma App_query_Abandon: "filter is_Abandon (snd (App_query c q self tr)) = filter is_Abandon tr"
  by (simp add: App_query_def query_loop_Abandon)

lemma App_query_queries:
  "set (queries_of (snd (App_query c q self tr))) \<subseteq> set (queries_of tr) \<union> (\<lambda>s. (s, q)) ` set (servers self)"
  unfolding App_query_def by (rule query_loop_queries)

lemma App_query_all_succeed:
  "(\<And>s. s \<in> set (servers self) \<Longrightarrow> server_query c s q = Inr (recs s)) \<Longrightarrow>
   App_query c q self tr =
     (Inr (self\<lparr>reviews := merged_items recs (servers self)\<rparr>), tr @ map (\<lambda>s. Query s q) (servers self))"
  by (simp add: App_query_def query_loop_all_succeed)

lemma App_query_fails:
  "servers self = pre @ item # post \<Longrightarrow>
   (\<And>s. s \<in> set pre \<Longrightarrow> server_query c s q = Inr (recs s)) \<Longrightarrow>
   server_query c item q = Inl e \<Longrightarrow>
   App_query c q self tr = (Inl e, tr @ map (\<lambda>s. Query s q) (pre @ [item]))"
  by (simp add: App_query_def query_loop_fails)

lemma App_query_Inr:
  "fst (App_query c q self tr) = Inr self' \<Longrightarrow>
   queries_of (snd (App_query c q self tr)) = queries_of tr @ map (\<lambda>s. (s, q)) (servers self)"
  unfolding App_query_def by (rule query_loop_Inr)

lemma App_query_propagates:
  "answered c tr \<Longrightarrow> (s, q') \<in> set (queries_of (snd (App_query c q self tr))) \<Longrightarrow>
   server_query c s q' = Inl e \<Longrightarrow> fst (App_query c q self tr) = Inl e"
  unfolding App_query_def by (rule query_loop_propagates)

subsection \<open>Sorting\<close>

lemma mset_insort_lt: "mset (insort_lt lt x xs) = add_mset x (mset xs)"
  by (induction xs) simp_all

lemma mset_sorted_py: "mset (sorted_py lt xs) = mset xs"
  by (induction xs) (simp_all add: sorted_py_def mset_insort_lt)

lemma length_sorted_py: "length (sorted_py lt xs) = length xs"
  using mset_sorted_py [of lt xs] by (metis size_mset)

lemma set_insort_lt: "set (insort_lt lt x xs) = insert x (set xs)"
  by (induction xs) auto

lemma Review_lt_asym: "Review_lt c a b \<Longrightarrow> \<not> Review_lt c b a"
  by (auto simp: Review_lt_def)

lemma Review_lt_negtrans: "\<not> Review_lt c a b \<Longrightarrow> \<not> Review_lt c b d \<Longrightarrow> \<not> Review_lt c a d"
  by (auto simp: Review_lt_def)

lemma sorted_insort_Review:
  "sorted_wrt (\<lambda>a b. \<not> Review_lt c b a) xs \<Longrightarrow> sorted_wrt (\<lambda>a b. \<not> Review_lt c b a) (insort_lt (Review_lt c) x xs)"
proof (induction xs)
  case Nil
  then show ?case by simp
next
  case (Cons y ys)
  show ?case
  proof (cases "Review_lt c y x")
    case True
    then have "\<not> Review_lt c x y" by (rule Review_lt_asym)
    moreover have "\<forall>z\<in>set ys. \<not> Review_lt c z y" using Cons.prems by simp
    ultimately show ?thesis using True Cons by (auto simp: set_insort_lt)
  next
    case False
    have "\<forall>z\<in>set ys. \<not> Review_lt c z x"
      using Cons.prems False by (auto dest: Review_lt_negtrans)
    then show ?thesis using False Cons.prems by simp
  qed
qed

lemma sorted_sorted_py:
  "sorted_wrt (\<lambda>a b. \<not> Review_lt c b a) (sorted_py (Review_lt c) xs)"
  by (induction xs) (simp_all add: sorted_py_def sorted_insort_Review)

lemma sorted_py_id:
  "sorted_wrt (\<lambda>a b. \<not> lt b a) xs \<Longrightarrow> sorted_py lt xs = xs"
proof (induction xs)
  case Nil
  then show ?case by (simp add: sorted_py_def)
next
  case (Cons x xs)
  then have "sorted_py lt xs = xs" by simp
  then have "sorted_py lt (x # xs) = insort_lt lt x xs" by (simp add: sorted_py_def)
  also have "\<dots> = x # xs" using Cons.prems by (cases xs) simp_all
  finally show ?case .
qed

lemma sorted_py_nth:
  assumes "i < j" and "j < length (sorted_py (Review_lt c) rs)"
  shows "\<not> Review_lt c (sorted_py (Review_lt c) rs ! j) (sorted_py (Review_lt c) rs ! i)"
  using sorted_sorted_py [of c rs] assms by (simp add: sorted_wrt_iff_nth_less)

subsection \<open>The report\<close>

lemma report_loop_eq:
  "report_loop c rs table cnt tr =
     ((table @ map (as_columns c) rs, cnt + length rs), tr @ map (\<lambda>r. LOG_debug (data r)) rs)"
  by (induction rs arbitrary: table cnt tr) simp_all

lemma render_eq:
  "render c query title self tr =
     (case print_report c title (rows c self) (length (reviews self)) query
             (tr @ map (\<lambda>r. LOG_debug (data r)) (sorted_py (Review_lt c) (reviews self))) of
        (Some e, tr3) \<Rightarrow> (Inl e, tr3)
      | (None, tr3) \<Rightarrow> (Inr self, tr3))"
  by (simp add: render_def report_loop_eq rows_def length_sorted_py)

lemma render_fst:
  "fst (render c query title self tr) =
     (case console_raises c query title self of None \<Rightarrow> Inr self | Some e \<Rightarrow> Inl e)"
  by (simp add: render_eq print_report_def console_raises_def split: option.splits)

lemma render_ok:
  "console_raises c query title self = None \<Longrightarrow>
   render c query title self tr = (Inr self, tr @ rendered c query title self)"
  by (simp add: render_eq print_report_def console_raises_def rendered_def split: option.splits)

lemma render_Inr:
  "fst (render c query title self tr) = Inr self1 \<Longrightarrow>
   self1 = self \<and> snd (render c query title self tr) = tr @ rendered c query title self"
  by (auto simp: render_eq print_report_def rendered_def split: option.splits)

lemma render_Abandon: "filter is_Abandon (snd (render c query title self tr)) = filter is_Abandon tr"
  by (simp add: render_eq print_report_def filter_empty_conv split: option.splits)

lemma render_queries: "queries_of (snd (render c query title self tr)) = queries_of tr"
  by (simp add: render_eq print_report_def queries_of_append queries_of_debug split: option.splits)

lemma App_report_no_query:
  "query = None \<or> query = Some [] \<Longrightarrow> App_report c query title self tr = render c query title self tr"
  by (auto simp: App_report_def)

lemma App_report_query:
  "q \<noteq> [] \<Longrightarrow>
   App_report c (Some q) title self tr =
     (case App_query c q self tr of
        (Inl e, tr1) \<Rightarrow> (Inl e, tr1)
      | (Inr self1, tr1) \<Rightarrow> render c (Some q) title self1 tr1)"
  by (simp add: App_report_def)

lemma rendered_Abandon: "filter is_Abandon (rendered c query title self) = []"
  by (simp add: rendered_def filter_empty_conv)

lemma rendered_queries: "queries_of (rendered c query title self) = []"
  by (simp add: rendered_def queries_of_append queries_of_debug)

lemma App_report_Abandon:
  "filter is_Abandon (snd (App_report c query title self tr)) = filter is_Abandon tr"
proof (cases "query = None \<or> query = Some []")
  case True
  then show ?thesis by (simp add: App_report_no_query render_Abandon)
next
  case False
  then obtain q where q: "query = Some q" "q \<noteq> []" by auto
  show ?thesis
    using App_query_Abandon [of c q self tr]
    by (cases "App_query c q self tr") (auto simp: q App_report_query render_Abandon split: sum.splits)
qed

lemma App_report_frame:
  "fst (App_report c query title self tr) = Inr self' \<Longrightarrow>
   servers self' = servers self \<and> user self' = user self"
proof (cases "query = None \<or> query = Some []")
  case True
  assume "fst (App_report c query title self tr) = Inr self'"
  then show ?thesis using True render_Inr [of c query title self tr self'] by (simp add: App_report_no_query)
next
  case False
  assume a: "fst (App_report c query title self tr) = Inr self'"
  from False obtain q where q: "query = Some q" "q \<noteq> []" by auto
  obtain r tr1 where step: "App_query c q self tr = (r, tr1)" by (cases "App_query c q self tr")
  show ?thesis
  proof (cases r)
    case (Inl e)
    then show ?thesis using a step by (simp add: q App_report_query)
  next
    case (Inr self1)
    then have "self' = self1" using a step render_Inr [of c query title self1 tr1 self'] by (simp add: q App_report_query)
    then show ?thesis using App_query_frame [of c q self tr self1] step Inr by simp
  qed
qed

lemma App_report_queries:
  "set (queries_of (snd (App_report c (Some q) title self tr))) \<subseteq>
     set (queries_of tr) \<union> (\<lambda>s. (s, q)) ` set (servers self)"
proof (cases "q = []")
  case True
  then show ?thesis by (simp add: App_report_no_query render_queries)
next
  case False
  show ?thesis
    using App_query_queries [of c q self tr]
    by (cases "App_query c q self tr")
       (auto simp: False App_report_query render_queries split: sum.splits)
qed

lemma App_report_Inr:
  assumes "fst (App_report c query title self tr) = Inr self1"
  shows "\<exists>tr1. snd (App_report c query title self tr) = tr1 @ rendered c query title self1"
proof (cases "query = None \<or> query = Some []")
  case True
  then show ?thesis using assms render_Inr [of c query title self tr self1] by (auto simp: App_report_no_query)
next
  case False
  then obtain q where q: "query = Some q" "q \<noteq> []" by auto
  obtain r tr1 where step: "App_query c q self tr = (r, tr1)" by (cases "App_query c q self tr")
  show ?thesis
  proof (cases r)
    case (Inl e)
    then show ?thesis using assms step by (simp add: q App_report_query)
  next
    case (Inr self2)
    then show ?thesis
      using assms step render_Inr [of c query title self2 tr1 self1] by (auto simp: q App_report_query)
  qed
qed

lemma App_report_sent:
  assumes "q \<noteq> []" and "fst (App_report c (Some q) title self tr) = Inr self1"
  shows "queries_of (snd (App_report c (Some q) title self tr)) =
           queries_of tr @ map (\<lambda>s. (s, q)) (servers self)"
proof -
  obtain r tr1 where step: "App_query c q self tr = (r, tr1)" by (cases "App_query c q self tr")
  show ?thesis
  proof (cases r)
    case (Inl e)
    then show ?thesis using assms step by (simp add: App_report_query)
  next
    case (Inr self2)
    then have "queries_of tr1 = queries_of tr @ map (\<lambda>s. (s, q)) (servers self)"
      using App_query_Inr [of c q self tr self2] step by simp
    then show ?thesis using assms(1) step Inr by (simp add: App_report_query render_queries)
  qed
qed

lemma App_report_propagates:
  assumes "answered c tr" and "(s, q') \<in> set (queries_of (snd (App_report c query title self tr)))"
    and "server_query c s q' = Inl e"
  shows "fst (App_report c query title self tr) = Inl e"
proof (cases "query = None \<or> query = Some []")
  case True
  then have "(s, q') \<in> set (queries_of tr)" using assms(2) by (simp add: App_report_no_query render_queries)
  then show ?thesis using assms(1,3) answered_D by fastforce
next
  case False
  then obtain q where q: "query = Some q" "q \<noteq> []" by auto
  obtain r tr1 where step: "App_query c q self tr = (r, tr1)" by (cases "App_query c q self tr")
  have sent: "(s, q') \<in> set (queries_of tr1)"
    using assms(2) step by (cases r) (simp_all add: q App_report_query render_queries)
  then have "r = Inl e" using App_query_propagates [of c tr s q' q self e] assms(1,3) step by simp
  then show ?thesis using step by (simp add: q App_report_query)
qed

subsection \<open>The subcommands and their chain\<close>

lemma command_query_not_Nil: "command_query cmd u \<noteq> []"
  by (cases cmd) (simp_all add: owned_query_def incoming_query_def merged_query_def)

lemma invoke_report:
  "\<exists>title. invoke c cmd obj tr = App_report c (Some (command_query cmd (user obj))) title obj tr"
  by (cases cmd) (auto simp: owned_def incoming_def merged_def Let_def)

lemma invoke_Abandon: "filter is_Abandon (snd (invoke c cmd obj tr)) = filter is_Abandon tr"
  using invoke_report [of c cmd obj tr] by (auto simp: App_report_Abandon)

lemma invoke_frame:
  "fst (invoke c cmd obj tr) = Inr obj' \<Longrightarrow> servers obj' = servers obj \<and> user obj' = user obj"
  using invoke_report [of c cmd obj tr] by (auto simp: App_report_frame)

lemma invoke_queries:
  "set (queries_of (snd (invoke c cmd obj tr))) \<subseteq>
     set (queries_of tr) \<union> (\<lambda>s. (s, command_query cmd (user obj))) ` set (servers obj)"
proof -
  obtain title where "invoke c cmd obj tr = App_report c (Some (command_query cmd (user obj))) title obj tr"
    using invoke_report by blast
  then show ?thesis by (simp add: App_report_queries)
qed

lemma invoke_sent:
  "fst (invoke c cmd obj tr) = Inr obj' \<Longrightarrow>
   queries_of (snd (invoke c cmd obj tr)) =
     queries_of tr @ map (\<lambda>s. (s, command_query cmd (user obj))) (servers obj)"
  using invoke_report [of c cmd obj tr] command_query_not_Nil [of cmd "user obj"]
  by (auto simp: App_report_sent)

lemma invoke_propagates:
  "answered c tr \<Longrightarrow> (s, q) \<in> set (queries_of (snd (invoke c cmd obj tr))) \<Longrightarrow>
   server_query c s q = Inl e \<Longrightarrow> fst (invoke c cmd obj tr) = Inl e"
  using invoke_report [of c cmd obj tr] by (auto simp: App_report_propagates)

lemma invoke_answered:
  assumes "answered c tr" and "fst (invoke c cmd obj tr) = Inr obj'"
  shows "answered c (snd (invoke c cmd obj tr))"
proof (rule answered_I)
  fix s q e
  assume "(s, q) \<in> set (queries_of (snd (invoke c cmd obj tr)))" and "server_query c s q = Inl e"
  then have "fst (invoke c cmd obj tr) = Inl e" using assms(1) by (rule invoke_propagates [rotated])
  then show False using assms(2) by simp
qed

lemma invoke_chain_Abandon:
  "filter is_Abandon (snd (invoke_chain c cmds obj tr)) = filter is_Abandon tr"
proof (induction cmds arbitrary: obj tr)
  case Nil
  then show ?case by simp
next
  case (Cons cmd rest)
  show ?case
    using invoke_Abandon [of c cmd obj tr] Cons.IH
    by (cases "invoke c cmd obj tr") (auto split: sum.splits)
qed

lemma invoke_chain_frame:
  "fst (invoke_chain c cmds obj tr) = Inr obj' \<Longrightarrow> servers obj' = servers obj \<and> user obj' = user obj"
proof (induction cmds arbitrary: obj tr)
  case Nil
  then show ?case by simp
next
  case (Cons cmd rest)
  obtain r tr1 where inv: "invoke c cmd obj tr = (r, tr1)" by (cases "invoke c cmd obj tr")
  show ?case
  proof (cases r)
    case (Inl e)
    then show ?thesis using inv Cons.prems by simp
  next
    case (Inr obj1)
    then have "servers obj1 = servers obj \<and> user obj1 = user obj"
      using invoke_frame [of c cmd obj tr obj1] inv by simp
    moreover have "servers obj' = servers obj1 \<and> user obj' = user obj1"
      using Cons.IH [of obj1 tr1] Cons.prems inv Inr by simp
    ultimately show ?thesis by simp
  qed
qed

lemma invoke_chain_queries:
  "snd ` set (queries_of (snd (invoke_chain c cmds obj tr))) \<subseteq>
     snd ` set (queries_of tr) \<union> (\<lambda>cmd. command_query cmd (user obj)) ` set cmds"
proof (induction cmds arbitrary: obj tr)
  case Nil
  then show ?case by simp
next
  case (Cons cmd rest)
  obtain r tr1 where inv: "invoke c cmd obj tr = (r, tr1)" by (cases "invoke c cmd obj tr")
  have sub: "snd ` set (queries_of tr1) \<subseteq> snd ` set (queries_of tr) \<union> {command_query cmd (user obj)}"
    using invoke_queries [of c cmd obj tr] inv by auto
  show ?case
  proof (cases r)
    case (Inl e)
    then show ?thesis using inv sub by auto
  next
    case (Inr obj1)
    then have "user obj1 = user obj" using invoke_frame [of c cmd obj tr obj1] inv by simp
    then have "snd ` set (queries_of (snd (invoke_chain c rest obj1 tr1))) \<subseteq>
        snd ` set (queries_of tr1) \<union> (\<lambda>cmd. command_query cmd (user obj)) ` set rest"
      using Cons.IH [of obj1 tr1] by simp
    then show ?thesis using inv Inr sub by auto
  qed
qed

lemma invoke_chain_sent:
  "fst (invoke_chain c cmds obj tr) = Inr obj' \<Longrightarrow>
   queries_of (snd (invoke_chain c cmds obj tr)) =
     queries_of tr @
     concat (map (\<lambda>cmd. map (\<lambda>s. (s, command_query cmd (user obj))) (servers obj)) cmds)"
proof (induction cmds arbitrary: obj tr)
  case Nil
  then show ?case by simp
next
  case (Cons cmd rest)
  obtain r tr1 where inv: "invoke c cmd obj tr = (r, tr1)" by (cases "invoke c cmd obj tr")
  show ?case
  proof (cases r)
    case (Inl e)
    then show ?thesis using inv Cons.prems by simp
  next
    case (Inr obj1)
    have same: "servers obj1 = servers obj \<and> user obj1 = user obj"
      using invoke_frame [of c cmd obj tr obj1] inv Inr by simp
    have first: "queries_of tr1 =
        queries_of tr @ map (\<lambda>s. (s, command_query cmd (user obj))) (servers obj)"
      using invoke_sent [of c cmd obj tr obj1] inv Inr by simp
    have "fst (invoke_chain c rest obj1 tr1) = Inr obj'" using Cons.prems inv Inr by simp
    then have "queries_of (snd (invoke_chain c rest obj1 tr1)) =
        queries_of tr1 @
        concat (map (\<lambda>cmd. map (\<lambda>s. (s, command_query cmd (user obj1))) (servers obj1)) rest)"
      by (rule Cons.IH)
    then show ?thesis using inv Inr same first by simp
  qed
qed

lemma invoke_chain_propagates:
  "answered c tr \<Longrightarrow> (s, q) \<in> set (queries_of (snd (invoke_chain c cmds obj tr))) \<Longrightarrow>
   server_query c s q = Inl e \<Longrightarrow> fst (invoke_chain c cmds obj tr) = Inl e"
proof (induction cmds arbitrary: obj tr)
  case Nil
  then show ?case using answered_D by fastforce
next
  case (Cons cmd rest)
  obtain r tr1 where inv: "invoke c cmd obj tr = (r, tr1)" by (cases "invoke c cmd obj tr")
  show ?case
  proof (cases r)
    case (Inl e0)
    then have "(s, q) \<in> set (queries_of (snd (invoke c cmd obj tr)))" using Cons.prems(2) inv by simp
    then have "fst (invoke c cmd obj tr) = Inl e"
      using Cons.prems(1,3) by (intro invoke_propagates)
    then show ?thesis using inv Inl by simp
  next
    case (Inr obj1)
    then have "answered c tr1" using invoke_answered [of c tr cmd obj obj1] Cons.prems(1) inv by simp
    then show ?thesis using Cons.IH [of tr1 obj1] Cons.prems(2,3) inv Inr by simp
  qed
qed

lemma callback_cases:
  fixes c :: "('r, 's) collaborators"
  assumes "\<And>e tr1. App_init c sv (quote_user usr) [LOG_warning ''Called with %s''] = (Inl e, tr1) \<Longrightarrow>
             cli_callback c debug sv abandon force abandon_age usr output cmds = (Inl e, tr1) \<Longrightarrow> P"
    and "\<And>obj tr1 e tr2. App_init c sv (quote_user usr) [LOG_warning ''Called with %s''] = (Inr obj, tr1) \<Longrightarrow>
             cmds = [] \<Longrightarrow>
             invoke c Owned obj (tr1 @ [LOG_info ''I was invoked without subcommand, assuming implicit `owned` command'']) = (Inl e, tr2) \<Longrightarrow>
             cli_callback c debug sv abandon force abandon_age usr output cmds = (Inl e, tr2) \<Longrightarrow> P"
    and "\<And>obj tr1 obj2 tr2. App_init c sv (quote_user usr) [LOG_warning ''Called with %s''] = (Inr obj, tr1) \<Longrightarrow>
             cmds = [] \<Longrightarrow>
             invoke c Owned obj (tr1 @ [LOG_info ''I was invoked without subcommand, assuming implicit `owned` command'']) = (Inr obj2, tr2) \<Longrightarrow>
             cli_callback c debug sv abandon force abandon_age usr output cmds =
               (case fst (save_output c output tr2) of Some e \<Rightarrow> Inl e | None \<Rightarrow> Inr obj2,
                snd (save_output c output tr2)) \<Longrightarrow> P"
    and "\<And>obj tr1. App_init c sv (quote_user usr) [LOG_warning ''Called with %s''] = (Inr obj, tr1) \<Longrightarrow>
             cmds \<noteq> [] \<Longrightarrow>
             cli_callback c debug sv abandon force abandon_age usr output cmds =
               (case fst (save_output c output tr1) of Some e \<Rightarrow> Inl e | None \<Rightarrow> Inr obj,
                snd (save_output c output tr1)) \<Longrightarrow> P"
  shows P
proof -
  let ?tr0 = "[LOG_warning ''Called with %s''] :: ('r, 's) trace"
  let ?info = "LOG_info ''I was invoked without subcommand, assuming implicit `owned` command'' :: ('r, 's) event"
  obtain r tr1 where init: "App_init c sv (quote_user usr) ?tr0 = (r, tr1)"
    by (cases "App_init c sv (quote_user usr) ?tr0")
  show ?thesis
  proof (cases r)
    case (Inl e)
    then show ?thesis using init assms(1) by (simp add: cli_callback_def)
  next
    case (Inr obj)
    show ?thesis
    proof (cases cmds)
      case Nil
      obtain r2 tr2 where ow: "invoke c Owned obj (tr1 @ [?info]) = (r2, tr2)"
        by (cases "invoke c Owned obj (tr1 @ [?info])")
      show ?thesis
      proof (cases r2)
        case (Inl e)
        then show ?thesis using init Inr Nil ow assms(2) [of obj tr1 e tr2] by (simp add: cli_callback_def)
      next
        case r2: (Inr obj2)
        show ?thesis using init Inr Nil ow r2 assms(3) [of obj tr1 obj2 tr2]
          by (cases "save_output c output tr2") (auto simp: cli_callback_def split: option.splits)
      qed
    next
      case (Cons cmd rest)
      show ?thesis using init Inr Cons assms(4) [of obj tr1]
        by (cases "save_output c output tr1") (auto simp: cli_callback_def split: option.splits)
    qed
  qed
qed

subsection \<open>The callback and the run\<close>

lemma callback_Abandon:
  fixes c :: "('r, 's) collaborators"
  shows "filter is_Abandon (snd (cli_callback c debug sv abandon force abandon_age usr output cmds)) = []"
proof (rule callback_cases [of c sv usr debug abandon force abandon_age "output" cmds])
  fix e and tr1 :: "('r, 's) trace"
  assume "App_init c sv (quote_user usr) [LOG_warning ''Called with %s''] = (Inl e, tr1)"
    and "cli_callback c debug sv abandon force abandon_age usr output cmds = (Inl e, tr1)"
  then show ?thesis using App_init_Abandon [of c sv "quote_user usr" "[LOG_warning ''Called with %s'']"] by simp
next
  fix obj e and tr1 tr2 :: "('r, 's) trace"
  assume "App_init c sv (quote_user usr) [LOG_warning ''Called with %s''] = (Inr obj, tr1)"
    and "invoke c Owned obj (tr1 @ [LOG_info ''I was invoked without subcommand, assuming implicit `owned` command'']) = (Inl e, tr2)"
    and "cli_callback c debug sv abandon force abandon_age usr output cmds = (Inl e, tr2)"
  then show ?thesis
    using App_init_Abandon [of c sv "quote_user usr" "[LOG_warning ''Called with %s'']"]
      invoke_Abandon [of c Owned obj "tr1 @ [LOG_info ''I was invoked without subcommand, assuming implicit `owned` command'']"]
    by simp
next
  fix obj obj2 and tr1 tr2 :: "('r, 's) trace"
  assume "App_init c sv (quote_user usr) [LOG_warning ''Called with %s''] = (Inr obj, tr1)"
    and "invoke c Owned obj (tr1 @ [LOG_info ''I was invoked without subcommand, assuming implicit `owned` command'']) = (Inr obj2, tr2)"
    and "cli_callback c debug sv abandon force abandon_age usr output cmds =
           (case fst (save_output c output tr2) of Some e \<Rightarrow> Inl e | None \<Rightarrow> Inr obj2,
            snd (save_output c output tr2))"
  then show ?thesis
    using App_init_Abandon [of c sv "quote_user usr" "[LOG_warning ''Called with %s'']"]
      invoke_Abandon [of c Owned obj "tr1 @ [LOG_info ''I was invoked without subcommand, assuming implicit `owned` command'']"]
    by (simp add: save_output_Abandon)
next
  fix obj and tr1 :: "('r, 's) trace"
  assume "App_init c sv (quote_user usr) [LOG_warning ''Called with %s''] = (Inr obj, tr1)"
    and "cli_callback c debug sv abandon force abandon_age usr output cmds =
           (case fst (save_output c output tr1) of Some e \<Rightarrow> Inl e | None \<Rightarrow> Inr obj,
            snd (save_output c output tr1))"
  then show ?thesis
    using App_init_Abandon [of c sv "quote_user usr" "[LOG_warning ''Called with %s'']"]
    by (simp add: save_output_Abandon)
qed

lemma callback_sent:
  fixes c :: "('r, 's) collaborators"
  assumes "fst (cli_callback c debug sv abandon force abandon_age usr output cmds) = Inr obj'"
  shows "user obj' = quote_user usr \<and> servers obj' \<noteq> [] \<and>
         queries_of (snd (cli_callback c debug sv abandon force abandon_age usr output cmds)) =
           (case cmds of
              [] \<Rightarrow> map (\<lambda>s. (s, owned_query (quote_user usr))) (servers obj')
            | cmd # rest \<Rightarrow> [])"
proof (rule callback_cases [of c sv usr debug abandon force abandon_age "output" cmds])
  fix e and tr1 :: "('r, 's) trace"
  assume "cli_callback c debug sv abandon force abandon_age usr output cmds = (Inl e, tr1)"
  then show ?thesis using assms by simp
next
  fix e and tr2 :: "('r, 's) trace"
  assume "cli_callback c debug sv abandon force abandon_age usr output cmds = (Inl e, tr2)"
  then show ?thesis using assms by simp
next
  fix obj obj2 and tr1 tr2 :: "('r, 's) trace"
  let ?info = "LOG_info ''I was invoked without subcommand, assuming implicit `owned` command'' :: ('r, 's) event"
  assume init: "App_init c sv (quote_user usr) [LOG_warning ''Called with %s''] = (Inr obj, tr1)"
    and nil: "cmds = []"
    and ow: "invoke c Owned obj (tr1 @ [?info]) = (Inr obj2, tr2)"
    and cb: "cli_callback c debug sv abandon force abandon_age usr output cmds =
           (case fst (save_output c output tr2) of Some e \<Rightarrow> Inl e | None \<Rightarrow> Inr obj2,
            snd (save_output c output tr2))"
  have o: "servers obj \<noteq> [] \<and> user obj = quote_user usr"
    using App_init_servers [of c sv "quote_user usr" "[LOG_warning ''Called with %s'']" obj] init by simp
  have q1: "queries_of tr1 = []"
    using App_init_queries [of c sv "quote_user usr" "[LOG_warning ''Called with %s'']"] init by simp
  have o2: "servers obj2 = servers obj \<and> user obj2 = user obj"
    using invoke_frame [of c Owned obj "tr1 @ [?info]" obj2] ow by simp
  have q2: "queries_of tr2 = map (\<lambda>s. (s, owned_query (quote_user usr))) (servers obj)"
    using invoke_sent [of c Owned obj "tr1 @ [?info]" obj2] ow q1 o by (simp add: queries_of_append)
  have "obj' = obj2" using assms cb by (simp split: option.splits)
  then show ?thesis using o o2 q2 cb nil by (simp add: save_output_queries)
next
  fix obj and tr1 :: "('r, 's) trace"
  assume init: "App_init c sv (quote_user usr) [LOG_warning ''Called with %s''] = (Inr obj, tr1)"
    and cons: "cmds \<noteq> []"
    and cb: "cli_callback c debug sv abandon force abandon_age usr output cmds =
           (case fst (save_output c output tr1) of Some e \<Rightarrow> Inl e | None \<Rightarrow> Inr obj,
            snd (save_output c output tr1))"
  have o: "servers obj \<noteq> [] \<and> user obj = quote_user usr"
    using App_init_servers [of c sv "quote_user usr" "[LOG_warning ''Called with %s'']" obj] init by simp
  have q1: "queries_of tr1 = []"
    using App_init_queries [of c sv "quote_user usr" "[LOG_warning ''Called with %s'']"] init by simp
  have "obj' = obj" using assms cb by (simp split: option.splits)
  then show ?thesis using o q1 cb cons by (cases cmds) (simp_all add: save_output_queries)
qed

lemma callback_queries:
  fixes c :: "('r, 's) collaborators"
  shows "snd ` set (queries_of (snd (cli_callback c debug sv abandon force abandon_age usr output cmds))) \<subseteq>
           (case cmds of [] \<Rightarrow> {owned_query (quote_user usr)} | cmd # rest \<Rightarrow> {})"
proof (rule callback_cases [of c sv usr debug abandon force abandon_age "output" cmds])
  fix e and tr1 :: "('r, 's) trace"
  assume "App_init c sv (quote_user usr) [LOG_warning ''Called with %s''] = (Inl e, tr1)"
    and "cli_callback c debug sv abandon force abandon_age usr output cmds = (Inl e, tr1)"
  then show ?thesis
    using App_init_queries [of c sv "quote_user usr" "[LOG_warning ''Called with %s'']"] by simp
next
  fix obj e and tr1 tr2 :: "('r, 's) trace"
  let ?info = "LOG_info ''I was invoked without subcommand, assuming implicit `owned` command'' :: ('r, 's) event"
  assume init: "App_init c sv (quote_user usr) [LOG_warning ''Called with %s''] = (Inr obj, tr1)"
    and nil: "cmds = []"
    and ow: "invoke c Owned obj (tr1 @ [?info]) = (Inl e, tr2)"
    and cb: "cli_callback c debug sv abandon force abandon_age usr output cmds = (Inl e, tr2)"
  have o: "user obj = quote_user usr"
    using App_init_servers [of c sv "quote_user usr" "[LOG_warning ''Called with %s'']" obj] init by simp
  have q1: "queries_of tr1 = []"
    using App_init_queries [of c sv "quote_user usr" "[LOG_warning ''Called with %s'']"] init by simp
  have "snd ` set (queries_of tr2) \<subseteq> {owned_query (quote_user usr)}"
    using invoke_queries [of c Owned obj "tr1 @ [?info]"] ow q1 o by (auto simp: queries_of_append)
  then show ?thesis using cb nil by simp
next
  fix obj obj2 and tr1 tr2 :: "('r, 's) trace"
  let ?info = "LOG_info ''I was invoked without subcommand, assuming implicit `owned` command'' :: ('r, 's) event"
  assume init: "App_init c sv (quote_user usr) [LOG_warning ''Called with %s''] = (Inr obj, tr1)"
    and nil: "cmds = []"
    and ow: "invoke c Owned obj (tr1 @ [?info]) = (Inr obj2, tr2)"
    and cb: "cli_callback c debug sv abandon force abandon_age usr output cmds =
           (case fst (save_output c output tr2) of Some e \<Rightarrow> Inl e | None \<Rightarrow> Inr obj2,
            snd (save_output c output tr2))"
  have o: "user obj = quote_user usr"
    using App_init_servers [of c sv "quote_user usr" "[LOG_warning ''Called with %s'']" obj] init by simp
  have q1: "queries_of tr1 = []"
    using App_init_queries [of c sv "quote_user usr" "[LOG_warning ''Called with %s'']"] init by simp
  have "snd ` set (queries_of tr2) \<subseteq> {owned_query (quote_user usr)}"
    using invoke_queries [of c Owned obj "tr1 @ [?info]"] ow q1 o by (auto simp: queries_of_append)
  then show ?thesis using cb nil by (simp add: save_output_queries)
next
  fix obj and tr1 :: "('r, 's) trace"
  assume init: "App_init c sv (quote_user usr) [LOG_warning ''Called with %s''] = (Inr obj, tr1)"
    and cb: "cli_callback c debug sv abandon force abandon_age usr output cmds =
           (case fst (save_output c output tr1) of Some e \<Rightarrow> Inl e | None \<Rightarrow> Inr obj,
            snd (save_output c output tr1))"
  have q1: "queries_of tr1 = []"
    using App_init_queries [of c sv "quote_user usr" "[LOG_warning ''Called with %s'']"] init by simp
  then show ?thesis using cb by (simp add: save_output_queries)
qed

lemma callback_propagates:
  fixes c :: "('r, 's) collaborators"
  assumes "(s, q) \<in> set (queries_of (snd (cli_callback c debug sv abandon force abandon_age usr output cmds)))"
    and "server_query c s q = Inl e"
  shows "fst (cli_callback c debug sv abandon force abandon_age usr output cmds) = Inl e"
proof (rule callback_cases [of c sv usr debug abandon force abandon_age "output" cmds])
  fix e0 and tr1 :: "('r, 's) trace"
  assume "App_init c sv (quote_user usr) [LOG_warning ''Called with %s''] = (Inl e0, tr1)"
    and "cli_callback c debug sv abandon force abandon_age usr output cmds = (Inl e0, tr1)"
  then show ?thesis
    using App_init_queries [of c sv "quote_user usr" "[LOG_warning ''Called with %s'']"] assms(1) by simp
next
  fix obj e0 and tr1 tr2 :: "('r, 's) trace"
  let ?info = "LOG_info ''I was invoked without subcommand, assuming implicit `owned` command'' :: ('r, 's) event"
  assume init: "App_init c sv (quote_user usr) [LOG_warning ''Called with %s''] = (Inr obj, tr1)"
    and ow: "invoke c Owned obj (tr1 @ [?info]) = (Inl e0, tr2)"
    and cb: "cli_callback c debug sv abandon force abandon_age usr output cmds = (Inl e0, tr2)"
  have q1: "queries_of tr1 = []"
    using App_init_queries [of c sv "quote_user usr" "[LOG_warning ''Called with %s'']"] init by simp
  then have "answered c (tr1 @ [?info])" by (simp add: answered_def queries_of_append)
  then have "fst (invoke c Owned obj (tr1 @ [?info])) = Inl e"
    using assms cb ow by (intro invoke_propagates [of c _ s q]) simp_all
  then show ?thesis using ow cb by simp
next
  fix obj obj2 and tr1 tr2 :: "('r, 's) trace"
  let ?info = "LOG_info ''I was invoked without subcommand, assuming implicit `owned` command'' :: ('r, 's) event"
  assume init: "App_init c sv (quote_user usr) [LOG_warning ''Called with %s''] = (Inr obj, tr1)"
    and ow: "invoke c Owned obj (tr1 @ [?info]) = (Inr obj2, tr2)"
    and cb: "cli_callback c debug sv abandon force abandon_age usr output cmds =
           (case fst (save_output c output tr2) of Some e \<Rightarrow> Inl e | None \<Rightarrow> Inr obj2,
            snd (save_output c output tr2))"
  have q1: "queries_of tr1 = []"
    using App_init_queries [of c sv "quote_user usr" "[LOG_warning ''Called with %s'']"] init by simp
  then have "answered c (tr1 @ [?info])" by (simp add: answered_def queries_of_append)
  moreover have "(s, q) \<in> set (queries_of (snd (invoke c Owned obj (tr1 @ [?info]))))"
    using assms(1) cb ow by (simp add: save_output_queries)
  ultimately have "fst (invoke c Owned obj (tr1 @ [?info])) = Inl e"
    using assms(2) by (intro invoke_propagates [of c _ s q])
  then show ?thesis using ow by simp
next
  fix obj and tr1 :: "('r, 's) trace"
  assume init: "App_init c sv (quote_user usr) [LOG_warning ''Called with %s''] = (Inr obj, tr1)"
    and cb: "cli_callback c debug sv abandon force abandon_age usr output cmds =
           (case fst (save_output c output tr1) of Some e \<Rightarrow> Inl e | None \<Rightarrow> Inr obj,
            snd (save_output c output tr1))"
  have q1: "queries_of tr1 = []"
    using App_init_queries [of c sv "quote_user usr" "[LOG_warning ''Called with %s'']"] init by simp
  then show ?thesis using assms(1) cb by (simp add: save_output_queries)
qed

lemma callback_answered:
  fixes c :: "('r, 's) collaborators"
  assumes "fst (cli_callback c debug sv abandon force abandon_age usr output cmds) = Inr obj"
  shows "answered c (snd (cli_callback c debug sv abandon force abandon_age usr output cmds))"
proof (rule answered_I)
  fix s q e
  assume "(s, q) \<in> set (queries_of (snd (cli_callback c debug sv abandon force abandon_age usr output cmds)))"
    and "server_query c s q = Inl e"
  then have "fst (cli_callback c debug sv abandon force abandon_age usr output cmds) = Inl e"
    by (rule callback_propagates)
  then show False using assms by simp
qed

lemma cli_queries:
  fixes c :: "('r, 's) collaborators"
  shows "snd ` set (queries_of (snd (cli c debug sv abandon force abandon_age usr output cmds))) \<subseteq>
     (\<lambda>cmd. command_query cmd (quote_user usr)) ` set (effective cmds)"
proof -
  obtain r tr where cb: "cli_callback c debug sv abandon force abandon_age usr output cmds = (r, tr)"
    by (cases "cli_callback c debug sv abandon force abandon_age usr output cmds")
  have first: "snd ` set (queries_of tr) \<subseteq> (\<lambda>cmd. command_query cmd (quote_user usr)) ` set (effective cmds)"
    using callback_queries [of c debug sv abandon force abandon_age usr "output" cmds] cb
    by (cases cmds) (auto simp: effective_def)
  show ?thesis
  proof (cases r)
    case (Inl e)
    then show ?thesis using cb first by (simp add: cli_def)
  next
    case (Inr obj)
    then have u: "user obj = quote_user usr"
      using callback_sent [of c debug sv abandon force abandon_age usr "output" cmds obj] cb by simp
    have mono: "(\<lambda>cmd. command_query cmd (quote_user usr)) ` set cmds \<subseteq>
        (\<lambda>cmd. command_query cmd (quote_user usr)) ` set (effective cmds)"
      by (cases cmds) (simp_all add: effective_def)
    have "snd ` set (queries_of (snd (invoke_chain c cmds obj tr))) \<subseteq>
        snd ` set (queries_of tr) \<union> (\<lambda>cmd. command_query cmd (quote_user usr)) ` set cmds"
      using invoke_chain_queries [of c cmds obj tr] by (simp only: u)
    also have "\<dots> \<subseteq> (\<lambda>cmd. command_query cmd (quote_user usr)) ` set (effective cmds)"
      using first mono by (rule Un_least)
    finally show ?thesis using cb Inr by (simp add: cli_def)
  qed
qed

lemma cli_sent:
  fixes c :: "('r, 's) collaborators"
  assumes "fst (cli c debug sv abandon force abandon_age usr output cmds) = Inr obj'"
  shows "servers obj' \<noteq> [] \<and> user obj' = quote_user usr \<and>
         queries_of (snd (cli c debug sv abandon force abandon_age usr output cmds)) =
           concat (map (\<lambda>cmd. map (\<lambda>s. (s, command_query cmd (quote_user usr))) (servers obj'))
                    (effective cmds))"
proof -
  obtain r tr where cb: "cli_callback c debug sv abandon force abandon_age usr output cmds = (r, tr)"
    by (cases "cli_callback c debug sv abandon force abandon_age usr output cmds")
  show ?thesis
  proof (cases r)
    case (Inl e)
    then show ?thesis using cb assms by (simp add: cli_def)
  next
    case (Inr obj)
    have o: "user obj = quote_user usr \<and> servers obj \<noteq> [] \<and>
        queries_of tr = (case cmds of [] \<Rightarrow> map (\<lambda>s. (s, owned_query (quote_user usr))) (servers obj)
                         | cmd # rest \<Rightarrow> [])"
      using callback_sent [of c debug sv abandon force abandon_age usr "output" cmds obj] cb Inr by simp
    have run: "cli c debug sv abandon force abandon_age usr output cmds = invoke_chain c cmds obj tr"
      using cb Inr by (simp add: cli_def)
    then have chain: "fst (invoke_chain c cmds obj tr) = Inr obj'" using assms by simp
    have same: "servers obj' = servers obj \<and> user obj' = user obj"
      using chain by (rule invoke_chain_frame)
    have "queries_of (snd (invoke_chain c cmds obj tr)) =
        queries_of tr @
        concat (map (\<lambda>cmd. map (\<lambda>s. (s, command_query cmd (user obj))) (servers obj)) cmds)"
      using chain by (rule invoke_chain_sent)
    then show ?thesis using o same run by (cases cmds) (simp_all add: effective_def)
  qed
qed

lemma cli_propagates:
  fixes c :: "('r, 's) collaborators"
  assumes "(s, q) \<in> set (queries_of (snd (cli c debug sv abandon force abandon_age usr output cmds)))"
    and "server_query c s q = Inl e"
  shows "fst (cli c debug sv abandon force abandon_age usr output cmds) = Inl e"
proof -
  obtain r tr where cb: "cli_callback c debug sv abandon force abandon_age usr output cmds = (r, tr)"
    by (cases "cli_callback c debug sv abandon force abandon_age usr output cmds")
  show ?thesis
  proof (cases r)
    case (Inl e0)
    then have "(s, q) \<in> set (queries_of (snd (cli_callback c debug sv abandon force abandon_age usr output cmds)))"
      using assms(1) cb by (simp add: cli_def)
    then have "fst (cli_callback c debug sv abandon force abandon_age usr output cmds) = Inl e"
      using assms(2) by (rule callback_propagates)
    then show ?thesis using cb Inl by (simp add: cli_def)
  next
    case (Inr obj)
    then have "answered c tr"
      using callback_answered [of c debug sv abandon force abandon_age usr "output" cmds obj] cb by simp
    moreover have "(s, q) \<in> set (queries_of (snd (invoke_chain c cmds obj tr)))"
      using assms(1) cb Inr by (simp add: cli_def)
    ultimately have "fst (invoke_chain c cmds obj tr) = Inl e"
      using assms(2) by (rule invoke_chain_propagates)
    then show ?thesis using cb Inr by (simp add: cli_def)
  qed
qed

subsection \<open>The concrete installation\<close>

lemma demo_Config:
  "Config demo tr =
     (Inr (Some [[(''url'', ''https://a.example/''), (''name'', ''A'')],
                 [(''url'', ''https://b.example/''), (''name'', ''B'')]]), tr)"
  by (simp add: Config_def load_config_def demo_def)

lemma demo_header_prints: "demo_console ''[dim]GRI using 2 servers: A B[/]'' = None"
  by (simp add: demo_console_def)

lemma demo_like_init:
  fixes c :: "(raw, string) collaborators"
  assumes "open_config c = None" and "safe_load c = safe_load demo"
    and "GerritServer c = (\<lambda>url nm. Inr nm)" and "name c = (\<lambda>s. s)" and "term_print c = demo_console"
  shows "App_init c None usr tr =
     (Inr \<lparr>cfg = Some [[(''url'', ''https://a.example/''), (''name'', ''A'')],
                       [(''url'', ''https://b.example/''), (''name'', ''B'')]],
           servers = [''A'', ''B''], user = usr, reviews = []\<rparr>,
      tr @ [Term_print ''[dim]GRI using 2 servers: A B[/]''])"
proof -
  have "header c \<lparr>cfg = cf, servers = [''A'', ''B''], user = usr, reviews = []\<rparr> =
      ''[dim]GRI using 2 servers: A B[/]''" for cf
    by (simp add: header_def assms(4) str_nat.simps digit_def)
  moreover have "init_loop c [[(''url'', ''https://a.example/''), (''name'', ''A'')],
                 [(''url'', ''https://b.example/''), (''name'', ''B'')]] [] tr = (Inr [''A'', ''B''], tr)"
    by (simp add: construct_def getitem_def assms(3))
  moreover have "Config c tr =
     (Inr (Some [[(''url'', ''https://a.example/''), (''name'', ''A'')],
                 [(''url'', ''https://b.example/''), (''name'', ''B'')]]), tr)"
    by (simp add: Config_def load_config_def assms(1,2)) (simp add: demo_def)
  ultimately show ?thesis
    by (simp add: App_init_def configured_def demo_header_prints assms(5))
qed

lemma demo_init:
  "App_init demo None usr tr =
     (Inr \<lparr>cfg = Some [[(''url'', ''https://a.example/''), (''name'', ''A'')],
                       [(''url'', ''https://b.example/''), (''name'', ''B'')]],
           servers = [''A'', ''B''], user = usr, reviews = []\<rparr>,
      tr @ [Term_print ''[dim]GRI using 2 servers: A B[/]''])"
  by (rule demo_like_init) (simp_all add: demo_def)

lemma demo_unreachable_run:
  "cli demo_unreachable False None False False 90 ''self'' None [Owned] =
     (Inl (Raised ''ConnectionError''),
      [LOG_warning ''Called with %s'', Term_print ''[dim]GRI using 2 servers: A B[/]'',
       Query ''A'' ''status:open owner:self''])"
proof -
  have init: "App_init demo_unreachable None usr tr =
     (Inr \<lparr>cfg = Some [[(''url'', ''https://a.example/''), (''name'', ''A'')],
                       [(''url'', ''https://b.example/''), (''name'', ''B'')]],
           servers = [''A'', ''B''], user = usr, reviews = []\<rparr>,
      tr @ [Term_print ''[dim]GRI using 2 servers: A B[/]''])" for usr tr
    by (rule demo_like_init) (simp_all add: demo_unreachable_def demo_def)
  show ?thesis
    by (simp add: cli_def cli_callback_def init quote_user_def save_output_def
        owned_def owned_query_def App_report_def App_query_def)
       (simp add: demo_unreachable_def)
qed

lemma demo_sorted:
  "sorted_py (Review_lt demo) demo_reviews =
     [Review (103, 120, - 2, False) ''A'', Review (102, 95, - 1, False) ''A'',
      Review (7, 200, - 2, True) ''B'', Review (101, 5, 1, False) ''A'']"
  by (simp add: sorted_py_def Review_lt_def demo_def demo_danger_def demo_reviews_def)


section \<open>The claims\<close>

subsection \<open>Aggregation over the servers\<close>

text \<open>
  Claim C3. When the query of every server of the application succeeds, \<^verbatim>\<open>App.query\<close>
  returns normally after querying each server once, in order, and the stored
  collection is the concatenation of the servers' results: its size is the sum of the
  servers' record counts, every item carries the server that returned its record, and
  no record is merged with or dropped for another server's.
\<close>

theorem query_concatenates:
  assumes "\<forall>s\<in>set (servers self). server_query c s q = Inr (recs s)"
  shows "App_query c q self tr =
           (Inr (self\<lparr>reviews := merged_items recs (servers self)\<rparr>),
            tr @ map (\<lambda>s. Query s q) (servers self)) \<and>
         merged_items recs (servers self) =
           concat (map (\<lambda>s. map (\<lambda>r. Review r s) (recs s)) (servers self)) \<and>
         length (merged_items recs (servers self)) = sum_list (map (\<lambda>s. length (recs s)) (servers self)) \<and>
         map server (merged_items recs (servers self)) =
           concat (map (\<lambda>s. replicate (length (recs s)) s) (servers self)) \<and>
         map data (merged_items recs (servers self)) = concat (map recs (servers self))"
proof (intro conjI)
  show "App_query c q self tr =
      (Inr (self\<lparr>reviews := merged_items recs (servers self)\<rparr>), tr @ map (\<lambda>s. Query s q) (servers self))"
    using assms by (simp add: App_query_all_succeed)
  show "merged_items recs (servers self) =
      concat (map (\<lambda>s. map (\<lambda>r. Review r s) (recs s)) (servers self))"
    by (simp add: merged_items_def)
  show "length (merged_items recs (servers self)) = sum_list (map (\<lambda>s. length (recs s)) (servers self))"
    by (rule length_merged_items)
  show "map server (merged_items recs (servers self)) =
      concat (map (\<lambda>s. replicate (length (recs s)) s) (servers self))"
    by (rule server_merged_items)
  show "map data (merged_items recs (servers self)) = concat (map recs (servers self))"
    by (rule data_merged_items)
qed

theorem query_concatenates_witness:
  "server_query demo ''A'' ''status:open'' = Inr [(101, 5, 1, False), (102, 95, - 1, False), (103, 120, - 2, False)] \<and>
   server_query demo ''B'' ''status:open'' = Inr [(7, 200, - 2, True)] \<and>
   App_query demo ''status:open'' demo_app [] =
     (Inr (demo_app\<lparr>reviews :=
        [Review (101, 5, 1, False) ''A'', Review (102, 95, - 1, False) ''A'',
         Review (103, 120, - 2, False) ''A'', Review (7, 200, - 2, True) ''B'']\<rparr>),
      [Query ''A'' ''status:open'', Query ''B'' ''status:open''])"
  using query_concatenates [of demo_app demo "''status:open''"
      "\<lambda>s. if s = ''A'' then [(101, 5, 1, False), (102, 95, - 1, False), (103, 120, - 2, False)]
           else [(7, 200, - 2, True)]" "[]"]
  by (simp add: demo_def demo_app_def merged_items_def)

text \<open>
  Server \<^verbatim>\<open>A\<close> is unreachable and server \<^verbatim>\<open>B\<close> answers with one record: the query of
  the application raises the exception of \<^verbatim>\<open>A\<close>, \<^verbatim>\<open>B\<close> is not queried, and the command
  line run ends with that exception instead of a report of \<^verbatim>\<open>B\<close>'s item.
\<close>

theorem query_failure_counterexample:
  "server_query demo_unreachable ''A'' ''status:open owner:self'' = Inl (Raised ''ConnectionError'') \<and>
   server_query demo_unreachable ''B'' ''status:open owner:self'' = Inr [(7, 200, - 2, True)] \<and>
   App_query demo_unreachable ''status:open owner:self'' demo_app [] =
     (Inl (Raised ''ConnectionError''), [Query ''A'' ''status:open owner:self'']) \<and>
   cli demo_unreachable False None False False 90 ''self'' None [Owned] =
     (Inl (Raised ''ConnectionError''),
      [LOG_warning ''Called with %s'', Term_print ''[dim]GRI using 2 servers: A B[/]'',
       Query ''A'' ''status:open owner:self''])"
proof -
  have "App_query demo_unreachable ''status:open owner:self'' demo_app [] =
     (Inl (Raised ''ConnectionError''), [Query ''A'' ''status:open owner:self''])"
    by (simp add: App_query_def demo_app_def demo_unreachable_def)
  then show ?thesis by (simp add: demo_unreachable_run) (simp add: demo_unreachable_def demo_def)
qed

text \<open>
  Claim C1, as amended. When the query of one server raises, after the servers in
  front of it have answered, \<^verbatim>\<open>App.query\<close> raises that exception: the servers
  behind it are not queried and no merged collection is returned. \<^verbatim>\<open>App.report\<close>
  called with that query raises the same exception before it logs or prints
  anything, and a run of the command line in which a query sent to a server raises
  ends with that exception.
\<close>

theorem query_failure_propagates:
  fixes c :: "('r, 's) collaborators"
  shows
  "(servers self = pre @ item # post \<and> (\<forall>s\<in>set pre. server_query c s q = Inr (recs s)) \<and>
    server_query c item q = Inl e \<longrightarrow>
      App_query c q self tr = (Inl e, tr @ map (\<lambda>s. Query s q) pre @ [Query item q]) \<and>
      (q \<noteq> [] \<longrightarrow>
         App_report c (Some q) title self tr = (Inl e, tr @ map (\<lambda>s. Query s q) pre @ [Query item q]))) \<and>
   ((s, q') \<in> set (queries_of (snd (cli c debug server_opt abandon force abandon_age usr output cmds))) \<and>
    server_query c s q' = Inl e \<longrightarrow>
      fst (cli c debug server_opt abandon force abandon_age usr output cmds) = Inl e)"
proof (intro conjI impI)
  assume a: "servers self = pre @ item # post \<and> (\<forall>s\<in>set pre. server_query c s q = Inr (recs s)) \<and>
    server_query c item q = Inl e"
  then show run: "App_query c q self tr = (Inl e, tr @ map (\<lambda>s. Query s q) pre @ [Query item q])"
    using App_query_fails [of self pre item post c q recs e tr] by simp
  assume "q \<noteq> []"
  then show "App_report c (Some q) title self tr = (Inl e, tr @ map (\<lambda>s. Query s q) pre @ [Query item q])"
    using run by (simp add: App_report_query)
next
  assume "(s, q') \<in> set (queries_of (snd (cli c debug server_opt abandon force abandon_age usr output cmds))) \<and>
    server_query c s q' = Inl e"
  then have "(s, q') \<in> set (queries_of (snd (cli c debug server_opt abandon force abandon_age usr output cmds)))"
    and "server_query c s q' = Inl e" by simp_all
  then show "fst (cli c debug server_opt abandon force abandon_age usr output cmds) = Inl e"
    by (rule cli_propagates)
qed

theorem query_failure_propagates_witness:
  "servers (demo_app\<lparr>servers := [''B'', ''A'']\<rparr>) = [''B''] @ ''A'' # [] \<and>
   server_query demo_unreachable ''B'' ''status:open'' = Inr [(7, 200, - 2, True)] \<and>
   server_query demo_unreachable ''A'' ''status:open'' = Inl (Raised ''ConnectionError'') \<and>
   App_query demo_unreachable ''status:open'' (demo_app\<lparr>servers := [''B'', ''A'']\<rparr>) [] =
     (Inl (Raised ''ConnectionError''), [Query ''B'' ''status:open'', Query ''A'' ''status:open'']) \<and>
   App_report demo_unreachable (Some ''status:open'') ''Reviews'' (demo_app\<lparr>servers := [''B'', ''A'']\<rparr>) [] =
     (Inl (Raised ''ConnectionError''), [Query ''B'' ''status:open'', Query ''A'' ''status:open'']) \<and>
   queries_of (snd (cli demo_unreachable False None False False 90 ''self'' None [Owned])) =
     [(''A'', ''status:open owner:self'')] \<and>
   server_query demo_unreachable ''A'' ''status:open owner:self'' = Inl (Raised ''ConnectionError'') \<and>
   fst (cli demo_unreachable False None False False 90 ''self'' None [Owned]) = Inl (Raised ''ConnectionError'')"
proof -
  note th = query_failure_propagates [of "demo_app\<lparr>servers := [''B'', ''A'']\<rparr>" "[''B'']" "''A''" "[]"
      demo_unreachable "''status:open''" "\<lambda>s. [(7, 200, - 2, True)]" "Raised ''ConnectionError''" "[]"
      "''Reviews''" "''A''" "''status:open owner:self''" False None False False 90 "''self''" None "[Owned]"]
  have A: "server_query demo_unreachable ''A'' q = Inl (Raised ''ConnectionError'')" for q
    by (simp add: demo_unreachable_def)
  have B: "server_query demo_unreachable ''B'' q = Inr [(7, 200, - 2, True)]" for q
    by (simp add: demo_unreachable_def demo_def)
  have s: "servers (demo_app\<lparr>servers := [''B'', ''A'']\<rparr>) = [''B''] @ ''A'' # []" by simp
  have sent: "queries_of (snd (cli demo_unreachable False None False False 90 ''self'' None [Owned])) =
      [(''A'', ''status:open owner:self'')]"
    by (simp add: demo_unreachable_run)
  from th show ?thesis using A B s sent by simp
qed

subsection \<open>Construction of the application object\<close>

text \<open>
  Claim C5. An application object that \<^verbatim>\<open>App.__init__\<close> returns holds at least one
  server. When every configured entry fails to construct, the constructor raises
  (\<^verbatim>\<open>sys.exit(1)\<close> when every failure was a \<^verbatim>\<open>SystemError\<close>), and when the constructor
  raises, the command line run ends with that exception without having sent a query
  to any server.
\<close>

theorem no_endpoint_halts:
  fixes c :: "('r, 's) collaborators"
  shows
  "(fst (App_init c server_opt usr tr) = Inr self \<longrightarrow> servers self \<noteq> []) \<and>
   (fst (Config c tr) = Inr cf \<and> configured c cf server_opt = Inr entries \<and>
    (\<forall>srv\<in>set entries. isl (construct c srv)) \<longrightarrow>
      (\<exists>e. fst (App_init c server_opt usr tr) = Inl e)) \<and>
   (fst (Config c tr) = Inr cf \<and> configured c cf server_opt = Inr entries \<and>
    (\<forall>srv\<in>set entries. \<exists>m. construct c srv = Inl (SystemError m)) \<longrightarrow>
      fst (App_init c server_opt usr tr) = Inl (SystemExit 1)) \<and>
   (fst (App_init c server_opt (quote_user usr) [LOG_warning ''Called with %s'']) = Inl e \<longrightarrow>
      fst (cli c debug server_opt abandon force abandon_age usr output cmds) = Inl e \<and>
      queries_of (snd (cli c debug server_opt abandon force abandon_age usr output cmds)) = [])"
proof (intro conjI impI)
  assume "fst (App_init c server_opt usr tr) = Inr self"
  then show "servers self \<noteq> []" by (simp add: App_init_servers)
next
  assume "fst (Config c tr) = Inr cf \<and> configured c cf server_opt = Inr entries \<and>
    (\<forall>srv\<in>set entries. isl (construct c srv))"
  then show "\<exists>e. fst (App_init c server_opt usr tr) = Inl e"
    using App_init_fails [of c tr cf server_opt entries usr] by simp
next
  assume a: "fst (Config c tr) = Inr cf \<and> configured c cf server_opt = Inr entries \<and>
    (\<forall>srv\<in>set entries. \<exists>m. construct c srv = Inl (SystemError m))"
  then have cf: "Config c tr = (Inr cf, tr)"
    using Config_Inr [of c tr cf "snd (Config c tr)"] by (cases "Config c tr") simp
  have "\<forall>srv\<in>set entries. caught (construct c srv)" using a by auto
  then have "init_loop c entries [] tr = (Inr ([] @ constructed c entries), tr @ logged_errors c entries)"
    by (rule init_loop_caught)
  moreover have "constructed c entries = []"
    using a by (intro constructed_Nil) auto
  ultimately show "fst (App_init c server_opt usr tr) = Inl (SystemExit 1)"
    using a cf by (simp add: App_init_def)
next
  assume a: "fst (App_init c server_opt (quote_user usr) [LOG_warning ''Called with %s'']) = Inl e"
  then have run: "cli c debug server_opt abandon force abandon_age usr output cmds =
      (Inl e, snd (App_init c server_opt (quote_user usr) [LOG_warning ''Called with %s'']))"
    by (rule cli_init_fails)
  then show "fst (cli c debug server_opt abandon force abandon_age usr output cmds) = Inl e" by simp
  show "queries_of (snd (cli c debug server_opt abandon force abandon_age usr output cmds)) = []"
    by (simp add: run App_init_queries)
qed

lemma demo_no_server_Config:
  "Config demo_no_server tr =
     (Inr (Some [[(''url'', ''https://a.example/''), (''name'', ''A'')],
                 [(''url'', ''https://b.example/''), (''name'', ''B'')]]), tr)"
  by (simp add: Config_def load_config_def demo_no_server_def demo_def)

lemma demo_no_server_construct:
  "construct demo_no_server [(''url'', u), (''name'', n)] = Inl (SystemError ''Unable to load credentials'')"
  by (simp add: construct_def getitem_def demo_no_server_def)

lemma demo_no_server_init:
  "App_init demo_no_server None ''self'' [LOG_warning ''Called with %s''] =
     (Inl (SystemExit 1),
      [LOG_warning ''Called with %s'', LOG_error (SystemError ''Unable to load credentials''),
       LOG_error (SystemError ''Unable to load credentials'')])"
  by (simp add: App_init_def demo_no_server_Config configured_def demo_no_server_construct)

theorem no_endpoint_halts_witness:
  "fst (App_init demo None ''self'' []) =
     Inr \<lparr>cfg = Some [[(''url'', ''https://a.example/''), (''name'', ''A'')],
                      [(''url'', ''https://b.example/''), (''name'', ''B'')]],
          servers = [''A'', ''B''], user = ''self'', reviews = []\<rparr> \<and>
   fst (Config demo_no_server [LOG_warning ''Called with %s'']) =
     Inr (Some [[(''url'', ''https://a.example/''), (''name'', ''A'')],
                [(''url'', ''https://b.example/''), (''name'', ''B'')]]) \<and>
   construct demo_no_server [(''url'', ''https://a.example/''), (''name'', ''A'')] =
     Inl (SystemError ''Unable to load credentials'') \<and>
   construct demo_no_server [(''url'', ''https://b.example/''), (''name'', ''B'')] =
     Inl (SystemError ''Unable to load credentials'') \<and>
   fst (App_init demo_no_server None ''self'' [LOG_warning ''Called with %s'']) = Inl (SystemExit 1) \<and>
   fst (cli demo_no_server False None False False 90 ''self'' None [Owned]) = Inl (SystemExit 1) \<and>
   queries_of (snd (cli demo_no_server False None False False 90 ''self'' None [Owned])) = []"
proof -
  note returned = no_endpoint_halts [of demo None "''self''" "[]"
      "\<lparr>cfg = Some [[(''url'', ''https://a.example/''), (''name'', ''A'')],
                      [(''url'', ''https://b.example/''), (''name'', ''B'')]],
          servers = [''A'', ''B''], user = ''self'', reviews = []\<rparr>", THEN conjunct1]
  note halted = no_endpoint_halts [of demo_no_server None "''self''" "[LOG_warning ''Called with %s'']" _ _ _
      "SystemExit 1" False False False 90 None "[Owned]", THEN conjunct2, THEN conjunct2, THEN conjunct2]
  from returned halted show ?thesis
    by (simp add: demo_no_server_init demo_no_server_Config demo_init quote_user_def
        demo_no_server_construct)
qed

text \<open>
  The first configured entry has no \<^verbatim>\<open>name\<close>, or its constructor raises an exception
  that is not a \<^verbatim>\<open>SystemError\<close>, while the second entry would construct: the
  constructor of \<^verbatim>\<open>App\<close> raises and no application object exists.
\<close>

theorem construction_abort_counterexample:
  "construct demo_nameless [(''url'', ''https://a.example/'')] = Inl (KeyError ''name'') \<and>
   construct demo_nameless [(''url'', ''https://b.example/''), (''name'', ''B'')] = Inr ''B'' \<and>
   App_init demo_nameless None ''self'' [] = (Inl (KeyError ''name''), []) \<and>
   construct demo_ctor_raises [(''url'', ''https://a.example/''), (''name'', ''A'')] =
     Inl (Raised ''ConnectionError'') \<and>
   construct demo_ctor_raises [(''url'', ''https://b.example/''), (''name'', ''B'')] = Inr ''B'' \<and>
   App_init demo_ctor_raises None ''self'' [] = (Inl (Raised ''ConnectionError''), [])"
  by (simp add: demo_nameless_def demo_ctor_raises_def demo_def App_init_def Config_def
      load_config_def configured_def construct_def getitem_def)

text \<open>
  Claim C6, as amended. When every entry either constructs or fails with a
  \<^verbatim>\<open>SystemError\<close>, the loop attempts every entry, logs each failure and retains exactly
  the servers that constructed, in configured order; when there is at least one they
  are the servers of the application object, which the constructor returns unless
  the console raises on the header. When an entry fails with any other exception,
  after entries that constructed or failed with a \<^verbatim>\<open>SystemError\<close>, the constructor of
  \<^verbatim>\<open>App\<close> raises that exception and the entries behind it are not attempted.
\<close>

theorem SystemError_does_not_abort:
  fixes c :: "('r, 's) collaborators"
  defines "self0 cf entries usr \<equiv> \<lparr>cfg = cf, servers = constructed c entries, user = usr, reviews = []\<rparr>"
  assumes "fst (Config c tr) = Inr cf" and "configured c cf server_opt = Inr entries"
  shows
  "((\<forall>srv\<in>set entries. caught (construct c srv)) \<longrightarrow>
      init_loop c entries [] tr = (Inr (constructed c entries), tr @ logged_errors c entries) \<and>
      (constructed c entries \<noteq> [] \<longrightarrow>
         App_init c server_opt usr tr =
           (case term_print c (header c (self0 cf entries usr)) of
              None \<Rightarrow> Inr (self0 cf entries usr)
            | Some e \<Rightarrow> Inl e,
            tr @ logged_errors c entries @ [Term_print (header c (self0 cf entries usr))]))) \<and>
   set (constructed c entries) = {s. \<exists>srv\<in>set entries. construct c srv = Inr s} \<and>
   (entries = pre @ srv # post \<and> (\<forall>p\<in>set pre. caught (construct c p)) \<and>
    construct c srv = Inl e \<and> \<not> is_SystemError e \<longrightarrow>
      App_init c server_opt usr tr = (Inl e, tr @ logged_errors c pre))"
proof (intro conjI impI)
  have cf: "Config c tr = (Inr cf, tr)"
    using assms(2) Config_Inr [of c tr cf "snd (Config c tr)"] by (cases "Config c tr") simp
  show "set (constructed c entries) = {s. \<exists>srv\<in>set entries. construct c srv = Inr s}"
    by (rule set_constructed)
  {
    assume "entries = pre @ srv # post \<and> (\<forall>p\<in>set pre. caught (construct c p)) \<and>
      construct c srv = Inl e \<and> \<not> is_SystemError e"
    then have "init_loop c entries [] tr = (Inl e, tr @ logged_errors c pre)"
      using init_loop_aborts [of pre c srv e post "[]" tr] by simp
    then show "App_init c server_opt usr tr = (Inl e, tr @ logged_errors c pre)"
      using cf assms(3) by (simp add: App_init_def)
  }
  assume all: "\<forall>srv\<in>set entries. caught (construct c srv)"
  show loop: "init_loop c entries [] tr = (Inr (constructed c entries), tr @ logged_errors c entries)"
    using init_loop_caught [OF all, of "[]" tr] by simp
  assume "constructed c entries \<noteq> []"
  then obtain s ss where "constructed c entries = s # ss" by (cases "constructed c entries") auto
  then show "App_init c server_opt usr tr =
      (case term_print c (header c (self0 cf entries usr)) of
         None \<Rightarrow> Inr (self0 cf entries usr)
       | Some e \<Rightarrow> Inl e,
       tr @ logged_errors c entries @ [Term_print (header c (self0 cf entries usr))])"
    using cf assms(3) loop by (simp add: App_init_def Let_def self0_def split: option.splits)
qed

lemma demo_no_credentials_Config:
  "Config demo_no_credentials tr =
     (Inr (Some [[(''url'', ''https://a.example/''), (''name'', ''A'')],
                 [(''url'', ''https://b.example/''), (''name'', ''B'')]]), tr)"
  by (simp add: Config_def load_config_def demo_no_credentials_def demo_def)

lemma demo_ctor_raises_Config:
  "Config demo_ctor_raises tr =
     (Inr (Some [[(''url'', ''https://a.example/''), (''name'', ''A'')],
                 [(''url'', ''https://b.example/''), (''name'', ''B'')]]), tr)"
  by (simp add: Config_def load_config_def demo_ctor_raises_def demo_def)

theorem SystemError_does_not_abort_witness:
  "fst (Config demo_no_credentials []) =
     Inr (Some [[(''url'', ''https://a.example/''), (''name'', ''A'')],
                [(''url'', ''https://b.example/''), (''name'', ''B'')]]) \<and>
   construct demo_no_credentials [(''url'', ''https://a.example/''), (''name'', ''A'')] =
     Inl (SystemError ''Unable to load credentials'') \<and>
   construct demo_no_credentials [(''url'', ''https://b.example/''), (''name'', ''B'')] = Inr ''B'' \<and>
   term_print demo_no_credentials ''[dim]GRI using 1 servers: B[/]'' = None \<and>
   App_init demo_no_credentials None ''self'' [] =
     (Inr \<lparr>cfg = Some [[(''url'', ''https://a.example/''), (''name'', ''A'')],
                       [(''url'', ''https://b.example/''), (''name'', ''B'')]],
           servers = [''B''], user = ''self'', reviews = []\<rparr>,
      [LOG_error (SystemError ''Unable to load credentials''),
       Term_print ''[dim]GRI using 1 servers: B[/]'']) \<and>
   fst (Config demo_ctor_raises []) =
     Inr (Some [[(''url'', ''https://a.example/''), (''name'', ''A'')],
                [(''url'', ''https://b.example/''), (''name'', ''B'')]]) \<and>
   construct demo_ctor_raises [(''url'', ''https://a.example/''), (''name'', ''A'')] =
     Inl (Raised ''ConnectionError'') \<and>
   App_init demo_ctor_raises None ''self'' [] = (Inl (Raised ''ConnectionError''), [])"
proof -
  let ?entries = "[[(''url'', ''https://a.example/''), (''name'', ''A'')],
                   [(''url'', ''https://b.example/''), (''name'', ''B'')]]"
  note kept = SystemError_does_not_abort [where c = demo_no_credentials and tr = "[]"
      and cf = "Some ?entries" and server_opt = None and entries = ?entries and usr = "''self''",
      THEN conjunct1]
  note aborted = SystemError_does_not_abort [where c = demo_ctor_raises and tr = "[]"
      and cf = "Some ?entries" and server_opt = None and entries = ?entries and usr = "''self''"
      and pre = "[]" and srv = "[(''url'', ''https://a.example/''), (''name'', ''A'')]"
      and post = "[[(''url'', ''https://b.example/''), (''name'', ''B'')]]"
      and e = "Raised ''ConnectionError''", THEN conjunct2, THEN conjunct2]
  have A: "construct demo_no_credentials [(''url'', ''https://a.example/''), (''name'', ''A'')] =
      Inl (SystemError ''Unable to load credentials'')"
    by (simp add: construct_def getitem_def demo_no_credentials_def)
  have B: "construct demo_no_credentials [(''url'', ''https://b.example/''), (''name'', ''B'')] = Inr ''B''"
    by (simp add: construct_def getitem_def demo_no_credentials_def)
  have R: "construct demo_ctor_raises [(''url'', ''https://a.example/''), (''name'', ''A'')] =
      Inl (Raised ''ConnectionError'')"
    by (simp add: construct_def getitem_def demo_ctor_raises_def)
  have h: "header demo_no_credentials \<lparr>cfg = cf, servers = [''B''], user = u, reviews = []\<rparr> =
      ''[dim]GRI using 1 servers: B[/]''" for cf u
    by (simp add: header_def demo_no_credentials_def demo_def str_nat.simps digit_def)
  have p: "term_print demo_no_credentials ''[dim]GRI using 1 servers: B[/]'' = None"
    by (simp add: demo_no_credentials_def demo_def demo_console_def)
  from kept have 1: "App_init demo_no_credentials None ''self'' [] =
     (Inr \<lparr>cfg = Some ?entries, servers = [''B''], user = ''self'', reviews = []\<rparr>,
      [LOG_error (SystemError ''Unable to load credentials''),
       Term_print ''[dim]GRI using 1 servers: B[/]''])"
    by (simp add: demo_no_credentials_Config configured_def A B h p)
  from aborted have 2: "App_init demo_ctor_raises None ''self'' [] = (Inl (Raised ''ConnectionError''), [])"
    by (simp add: demo_ctor_raises_Config configured_def R)
  show ?thesis using 1 2 A B R p by (simp add: demo_no_credentials_Config demo_ctor_raises_Config)
qed

subsection \<open>The report and its order\<close>

lemma demo_cols:
  "map (as_columns demo) (sorted_py (Review_lt demo) demo_reviews) =
     [[''103'', ''A''], [''102'', ''A''], [''7'', ''B''], [''101'', ''A'']]"
  by (simp add: demo_sorted) (simp add: demo_def str_int_def str_nat.simps digit_def)

lemma demo_rows:
  "reviews self = demo_reviews \<Longrightarrow>
   rows demo self = [[''103'', ''A''], [''102'', ''A''], [''7'', ''B''], [''101'', ''A'']]"
  by (simp add: rows_def demo_cols)

lemma demo_four: "str_nat (length demo_reviews) = ''4''"
  by (simp add: demo_reviews_def str_nat.simps digit_def)

lemma demo_table_prints:
  "\<not> holds ''[/x]'' title \<Longrightarrow>
   term_print_table demo title [[''103'', ''A''], [''102'', ''A''], [''7'', ''B''], [''101'', ''A'']] = None"
  by (simp add: demo_def demo_console_def)

lemma demo_debug:
  "map (\<lambda>r. LOG_debug (data r)) (sorted_py (Review_lt demo) demo_reviews) =
     [LOG_debug (103, 120, - 2, False), LOG_debug (102, 95, - 1, False),
      LOG_debug (7, 200, - 2, True), LOG_debug (101, 5, 1, False)]"
  by (simp add: demo_sorted)

lemma demo_render:
  assumes "reviews self = demo_reviews" and "\<not> holds ''[/x]'' title"
    and "term_print demo (summary (length demo_reviews) query) = None"
  shows "render demo query title self tr =
     (Inr self,
      tr @ [LOG_debug (103, 120, - 2, False), LOG_debug (102, 95, - 1, False),
            LOG_debug (7, 200, - 2, True), LOG_debug (101, 5, 1, False),
            Term_print_table title [[''103'', ''A''], [''102'', ''A''], [''7'', ''B''], [''101'', ''A'']],
            Term_print (summary (length demo_reviews) query)])"
proof -
  have "console_raises demo query title self = None"
    using assms by (simp add: console_raises_def demo_rows demo_table_prints)
  then show ?thesis
    using assms(1) by (simp add: render_ok rendered_def demo_rows demo_debug)
qed

lemma demo_report:
  "App_report demo None ''Reviews'' (demo_app\<lparr>reviews := demo_reviews\<rparr>) [] =
     (Inr (demo_app\<lparr>reviews := demo_reviews\<rparr>),
      [LOG_debug (103, 120, - 2, False), LOG_debug (102, 95, - 1, False),
       LOG_debug (7, 200, - 2, True), LOG_debug (101, 5, 1, False),
       Term_print_table ''Reviews'' [[''103'', ''A''], [''102'', ''A''], [''7'', ''B''], [''101'', ''A'']],
       Term_print ''[dim]-- 4 changes listed[/]''])"
proof -
  have "term_print demo ''[dim]-- 4 changes listed[/]'' = None"
    by (simp add: demo_def demo_console_def)
  then have "console_raises demo None ''Reviews'' (demo_app\<lparr>reviews := demo_reviews\<rparr>) = None"
    by (simp add: console_raises_def demo_rows demo_table_prints summary_def demo_four)
  then show ?thesis
    by (simp add: App_report_no_query render_ok rendered_def demo_rows demo_debug summary_def demo_four)
qed

text \<open>
  Claim C7, with the comparison of items modelled from section 4.2 of the spec. When
  \<^verbatim>\<open>App.report\<close> returns, the table it printed holds one row per stored item in the
  order of \<^verbatim>\<open>sorted\<close>. That order is a permutation of the collection in which the
  danger level never increases from one row to a later one, among rows of equal
  danger the age never increases, and among rows of equal danger and age the
  identifier never decreases; sorting the sorted sequence again returns it unchanged.
\<close>

theorem report_order:
  fixes c :: "('r, 's) collaborators"
  defines "shown rs \<equiv> sorted_py (Review_lt c) rs"
  assumes "fst (App_report c query title self tr) = Inr self1"
  shows "(\<exists>tr1. snd (App_report c query title self tr) =
            tr1 @ map (\<lambda>r. LOG_debug (data r)) (shown (reviews self1)) @
            [Term_print_table title (map (as_columns c) (shown (reviews self1))),
             Term_print (summary (length (reviews self1)) query)]) \<and>
         mset (shown rs) = mset rs \<and>
         (\<forall>i j. i < j \<and> j < length (shown rs) \<longrightarrow>
            danger_rank (danger c (shown rs ! j)) \<le> danger_rank (danger c (shown rs ! i)) \<and>
            (danger_rank (danger c (shown rs ! j)) = danger_rank (danger c (shown rs ! i)) \<longrightarrow>
               age c (shown rs ! j) \<le> age c (shown rs ! i) \<and>
               (age c (shown rs ! j) = age c (shown rs ! i) \<longrightarrow>
                  number c (shown rs ! i) \<le> number c (shown rs ! j)))) \<and>
         shown (shown rs) = shown rs"
proof (intro conjI allI impI)
  show "\<exists>tr1. snd (App_report c query title self tr) =
      tr1 @ map (\<lambda>r. LOG_debug (data r)) (shown (reviews self1)) @
      [Term_print_table title (map (as_columns c) (shown (reviews self1))),
       Term_print (summary (length (reviews self1)) query)]"
    using App_report_Inr [OF assms(2)] by (simp add: rendered_def rows_def shown_def)
  show "mset (shown rs) = mset rs" by (simp add: shown_def mset_sorted_py)
  show "shown (shown rs) = shown rs"
    unfolding shown_def by (rule sorted_py_id) (rule sorted_sorted_py)
next
  fix i j
  assume "i < j \<and> j < length (shown rs)"
  then have n: "\<not> Review_lt c (shown rs ! j) (shown rs ! i)"
    using sorted_py_nth [of i j c rs] by (simp add: shown_def)
  from n show "danger_rank (danger c (shown rs ! j)) \<le> danger_rank (danger c (shown rs ! i))"
    by (auto simp: Review_lt_def)
  {
    assume "danger_rank (danger c (shown rs ! j)) = danger_rank (danger c (shown rs ! i))"
    with n show "age c (shown rs ! j) \<le> age c (shown rs ! i)" by (auto simp: Review_lt_def)
  }
  {
    assume "danger_rank (danger c (shown rs ! j)) = danger_rank (danger c (shown rs ! i))"
      and "age c (shown rs ! j) = age c (shown rs ! i)"
    with n show "number c (shown rs ! i) \<le> number c (shown rs ! j)" by (auto simp: Review_lt_def)
  }
qed

theorem report_order_witness:
  "fst (App_report demo None ''Reviews'' (demo_app\<lparr>reviews := demo_reviews\<rparr>) []) =
     Inr (demo_app\<lparr>reviews := demo_reviews\<rparr>) \<and>
   snd (App_report demo None ''Reviews'' (demo_app\<lparr>reviews := demo_reviews\<rparr>) []) =
     [LOG_debug (103, 120, - 2, False), LOG_debug (102, 95, - 1, False),
      LOG_debug (7, 200, - 2, True), LOG_debug (101, 5, 1, False),
      Term_print_table ''Reviews'' [[''103'', ''A''], [''102'', ''A''], [''7'', ''B''], [''101'', ''A'']],
      Term_print ''[dim]-- 4 changes listed[/]''] \<and>
   sorted_py (Review_lt demo) demo_reviews =
     [Review (103, 120, - 2, False) ''A'', Review (102, 95, - 1, False) ''A'',
      Review (7, 200, - 2, True) ''B'', Review (101, 5, 1, False) ''A''] \<and>
   sorted_py (Review_lt demo) (sorted_py (Review_lt demo) demo_reviews) =
     sorted_py (Review_lt demo) demo_reviews"
  using report_order [of demo None "''Reviews''" "demo_app\<lparr>reviews := demo_reviews\<rparr>" "[]"
      "demo_app\<lparr>reviews := demo_reviews\<rparr>" demo_reviews]
  by (simp add: demo_report demo_sorted)

text \<open>
  The user of the run is \<^verbatim>\<open>[/x]\<close>. \<^verbatim>\<open>owned\<close> passes the title
  \<^verbatim>\<open>Reviews owned by [/x]\<close> and the query \<^verbatim>\<open>status:open owner:[/x]\<close> to
  \<^verbatim>\<open>App.report\<close>; both servers answer, the four items are merged and logged, and the
  console raises \<^verbatim>\<open>MarkupError\<close> on the table: \<^verbatim>\<open>report\<close> raises, no summary line is
  printed and the run ends with the exception.
\<close>

theorem report_markup_counterexample:
  "App_report demo (Some ''status:open owner:[/x]'') ''Reviews owned by [/x]'' demo_app [] =
     (Inl (Raised ''MarkupError''),
      [Query ''A'' ''status:open owner:[/x]'', Query ''B'' ''status:open owner:[/x]'',
       LOG_debug (103, 120, - 2, False), LOG_debug (102, 95, - 1, False),
       LOG_debug (7, 200, - 2, True), LOG_debug (101, 5, 1, False),
       Term_print_table ''Reviews owned by [/x]''
         [[''103'', ''A''], [''102'', ''A''], [''7'', ''B''], [''101'', ''A'']]]) \<and>
   fst (cli demo False None False False 90 ''[/x]'' None [Owned]) = Inl (Raised ''MarkupError'')"
proof -
  have q: "App_query demo ''status:open owner:[/x]'' self tr =
      (Inr (self\<lparr>reviews := demo_reviews\<rparr>),
       tr @ [Query ''A'' ''status:open owner:[/x]'', Query ''B'' ''status:open owner:[/x]''])"
    if "servers self = [''A'', ''B'']" for self :: "(raw, string) App" and tr
    using that by (simp add: App_query_def demo_def demo_reviews_def)
  have p: "term_print_table demo ''Reviews owned by [/x]''
      [[''103'', ''A''], [''102'', ''A''], [''7'', ''B''], [''101'', ''A'']] = Some (Raised ''MarkupError'')"
    by (simp add: demo_def demo_console_def)
  have r: "App_report demo (Some ''status:open owner:[/x]'') ''Reviews owned by [/x]'' self tr =
     (Inl (Raised ''MarkupError''),
      tr @ [Query ''A'' ''status:open owner:[/x]'', Query ''B'' ''status:open owner:[/x]'',
       LOG_debug (103, 120, - 2, False), LOG_debug (102, 95, - 1, False),
       LOG_debug (7, 200, - 2, True), LOG_debug (101, 5, 1, False),
       Term_print_table ''Reviews owned by [/x]''
         [[''103'', ''A''], [''102'', ''A''], [''7'', ''B''], [''101'', ''A'']]])"
    if "servers self = [''A'', ''B'']" for self :: "(raw, string) App" and tr
    using that by (simp add: App_report_query q render_eq print_report_def demo_rows p demo_debug)
  have "fst (cli demo False None False False 90 ''[/x]'' None [Owned]) = Inl (Raised ''MarkupError'')"
    by (simp add: cli_def cli_callback_def demo_init quote_user_def save_output_def owned_def
        owned_query_def r)
  then show ?thesis using r [of demo_app "[]"] by (simp add: demo_app_def)
qed



text \<open>
  The application holds one item when \<^verbatim>\<open>report\<close> is called with the query
  \<^verbatim>\<open>status:open\<close>: after the call the collection is the four items the servers
  returned, and the item held before is gone.
\<close>

theorem report_replaces_collection_counterexample:
  "reviews (demo_app\<lparr>reviews := [Review (1, 1, 1, False) ''A'']\<rparr>) = [Review (1, 1, 1, False) ''A''] \<and>
   fst (App_report demo (Some ''status:open'') ''Reviews''
          (demo_app\<lparr>reviews := [Review (1, 1, 1, False) ''A'']\<rparr>) []) =
     Inr (demo_app\<lparr>reviews :=
            [Review (101, 5, 1, False) ''A'', Review (102, 95, - 1, False) ''A'',
             Review (103, 120, - 2, False) ''A'', Review (7, 200, - 2, True) ''B'']\<rparr>)"
proof -
  have q: "App_query demo ''status:open'' (demo_app\<lparr>reviews := [Review (1, 1, 1, False) ''A'']\<rparr>) [] =
      (Inr (demo_app\<lparr>reviews := demo_reviews\<rparr>), [Query ''A'' ''status:open'', Query ''B'' ''status:open''])"
    by (simp add: App_query_def demo_def demo_app_def demo_reviews_def)
  have "term_print demo ''[dim]-- 4 changes listed from: [cyan]status:open[/][/]'' = None"
    by (simp add: demo_def demo_console_def)
  then have "console_raises demo (Some ''status:open'') ''Reviews'' (demo_app\<lparr>reviews := demo_reviews\<rparr>) = None"
    by (simp add: console_raises_def demo_rows demo_table_prints summary_def demo_four)
  then show ?thesis
    by (simp add: App_report_query q render_fst) (simp add: demo_reviews_def)
qed

text \<open>
  Claim C9, as amended. \<^verbatim>\<open>App.report\<close> changes the application object only through the
  query it runs first. Without a query (\<^verbatim>\<open>None\<close> or the empty string) the object that
  \<^verbatim>\<open>report\<close> returns with, and so the collection with its stored order, is the one
  before the call, and \<^verbatim>\<open>report\<close> does return when the console returns on the table
  and the summary line. With a query, \<^verbatim>\<open>report\<close> raises what \<^verbatim>\<open>App.query\<close> raises,
  and when it returns, the object is the one \<^verbatim>\<open>App.query\<close> returned, which sorting
  and rendering leave as it is.
\<close>

theorem report_keeps_collection:
  "((query = None \<or> query = Some []) \<and> fst (App_report c query title self tr) = Inr self1 \<longrightarrow> self1 = self) \<and>
   ((query = None \<or> query = Some []) \<and>
    term_print_table c title (map (as_columns c) (sorted_py (Review_lt c) (reviews self))) = None \<and>
    term_print c (summary (length (reviews self)) query) = None \<longrightarrow>
      fst (App_report c query title self tr) = Inr self) \<and>
   (q \<noteq> [] \<and> fst (App_report c (Some q) title self tr) = Inr self1 \<longrightarrow>
      fst (App_query c q self tr) = Inr self1) \<and>
   (q \<noteq> [] \<and> fst (App_query c q self tr) = Inl e \<longrightarrow>
      fst (App_report c (Some q) title self tr) = Inl e) \<and>
   (q \<noteq> [] \<and> fst (App_query c q self tr) = Inr self1 \<and>
    term_print_table c title (map (as_columns c) (sorted_py (Review_lt c) (reviews self1))) = None \<and>
    term_print c (summary (length (reviews self1)) (Some q)) = None \<longrightarrow>
      fst (App_report c (Some q) title self tr) = Inr self1)"
proof (intro conjI impI)
  assume "(query = None \<or> query = Some []) \<and> fst (App_report c query title self tr) = Inr self1"
  then have nq: "query = None \<or> query = Some []" and r: "fst (App_report c query title self tr) = Inr self1"
    by simp_all
  from r have "fst (render c query title self tr) = Inr self1"
    by (simp add: App_report_no_query [OF nq])
  then show "self1 = self" using render_Inr [of c query title self tr self1] by simp
next
  assume "(query = None \<or> query = Some []) \<and>
    term_print_table c title (map (as_columns c) (sorted_py (Review_lt c) (reviews self))) = None \<and>
    term_print c (summary (length (reviews self)) query) = None"
  then show "fst (App_report c query title self tr) = Inr self"
    by (simp add: App_report_no_query render_fst console_raises_def rows_def)
next
  assume "q \<noteq> [] \<and> fst (App_report c (Some q) title self tr) = Inr self1"
  then have nq: "q \<noteq> []" and a: "fst (App_report c (Some q) title self tr) = Inr self1" by simp_all
  note unfold = App_report_query [OF nq, of c title self tr]
  obtain r tr1 where step: "App_query c q self tr = (r, tr1)" by (cases "App_query c q self tr")
  show "fst (App_query c q self tr) = Inr self1"
  proof (cases r)
    case (Inl e)
    then show ?thesis using a step unfold by simp
  next
    case (Inr self2)
    then have "fst (render c (Some q) title self2 tr1) = Inr self1" using a step unfold by simp
    then have "self1 = self2" using render_Inr [of c "Some q" title self2 tr1 self1] by simp
    then show ?thesis using step Inr by simp
  qed
next
  assume "q \<noteq> [] \<and> fst (App_query c q self tr) = Inl e"
  then have nq: "q \<noteq> []" and a: "fst (App_query c q self tr) = Inl e" by simp_all
  show "fst (App_report c (Some q) title self tr) = Inl e"
    using a App_report_query [OF nq, of c title self tr] by (cases "App_query c q self tr") simp
next
  assume "q \<noteq> [] \<and> fst (App_query c q self tr) = Inr self1 \<and>
    term_print_table c title (map (as_columns c) (sorted_py (Review_lt c) (reviews self1))) = None \<and>
    term_print c (summary (length (reviews self1)) (Some q)) = None"
  then have nq: "q \<noteq> []" and a: "fst (App_query c q self tr) = Inr self1"
    and ok: "console_raises c (Some q) title self1 = None"
    by (simp_all add: console_raises_def rows_def)
  show "fst (App_report c (Some q) title self tr) = Inr self1"
    using a ok App_report_query [OF nq, of c title self tr]
    by (cases "App_query c q self tr") (simp add: render_fst)
qed

theorem report_keeps_collection_witness:
  "fst (App_report demo None ''Reviews'' (demo_app\<lparr>reviews := demo_reviews\<rparr>) []) =
     Inr (demo_app\<lparr>reviews := demo_reviews\<rparr>) \<and>
   term_print_table demo ''Reviews'' [[''103'', ''A''], [''102'', ''A''], [''7'', ''B''], [''101'', ''A'']] = None \<and>
   term_print demo ''[dim]-- 4 changes listed[/]'' = None \<and>
   term_print demo ''[dim]-- 4 changes listed from: [cyan]status:open[/][/]'' = None \<and>
   fst (App_report demo (Some ''status:open'') ''Reviews'' (demo_app\<lparr>reviews := [Review (1, 1, 1, False) ''A'']\<rparr>) []) =
     Inr (demo_app\<lparr>reviews := demo_reviews\<rparr>) \<and>
   fst (App_query demo ''status:open'' (demo_app\<lparr>reviews := [Review (1, 1, 1, False) ''A'']\<rparr>) []) =
     Inr (demo_app\<lparr>reviews := demo_reviews\<rparr>) \<and>
   fst (App_query demo_unreachable ''status:open'' demo_app []) = Inl (Raised ''ConnectionError'') \<and>
   fst (App_report demo_unreachable (Some ''status:open'') ''Reviews'' demo_app []) =
     Inl (Raised ''ConnectionError'')"
proof -
  let ?app = "demo_app\<lparr>reviews := demo_reviews\<rparr>"
  let ?one = "demo_app\<lparr>reviews := [Review (1, 1, 1, False) ''A'']\<rparr>"
  note stored = report_keeps_collection [where c = demo and query = None and title = "''Reviews''"
      and self = ?app and tr = "[]", THEN conjunct2, THEN conjunct1, rule_format]
  note queried = report_keeps_collection [where c = demo and title = "''Reviews''" and self = ?one
      and tr = "[]" and q = "''status:open''" and ?self1.0 = ?app,
      THEN conjunct2, THEN conjunct2, THEN conjunct2, THEN conjunct2, rule_format]
  note failed = report_keeps_collection [where c = demo_unreachable and title = "''Reviews''"
      and self = demo_app and tr = "[]" and q = "''status:open''" and e = "Raised ''ConnectionError''",
      THEN conjunct2, THEN conjunct2, THEN conjunct2, THEN conjunct1, rule_format]
  note cols = demo_cols
  have t1: "term_print_table demo ''Reviews'' [[''103'', ''A''], [''102'', ''A''], [''7'', ''B''], [''101'', ''A'']] = None"
    by (simp add: demo_table_prints)
  have p1: "term_print demo ''[dim]-- 4 changes listed[/]'' = None"
    by (simp add: demo_def demo_console_def)
  have p2: "term_print demo ''[dim]-- 4 changes listed from: [cyan]status:open[/][/]'' = None"
    by (simp add: demo_def demo_console_def)
  have q: "fst (App_query demo ''status:open'' ?one []) = Inr ?app"
    by (simp add: App_query_def demo_def demo_app_def demo_reviews_def)
  have f: "fst (App_query demo_unreachable ''status:open'' demo_app []) = Inl (Raised ''ConnectionError'')"
    by (simp add: App_query_def demo_unreachable_def demo_app_def)
  have 1: "fst (App_report demo None ''Reviews'' ?app []) = Inr ?app"
    using stored by (simp add: cols t1 p1 summary_def demo_four)
  have 2: "fst (App_report demo (Some ''status:open'') ''Reviews'' ?one []) = Inr ?app"
    using queried q by (simp add: cols t1 p2 summary_def demo_four)
  have 3: "fst (App_report demo_unreachable (Some ''status:open'') ''Reviews'' demo_app []) =
      Inl (Raised ''ConnectionError'')"
    using failed f by simp
  show ?thesis using 1 2 3 q f t1 p1 p2 by simp
qed

subsection \<open>The abandon action\<close>

text \<open>
  Claim C4. With the force flag false, a run of the command line (any options, any
  user, any chain of subcommands, any servers and answers) sends no abandon call for
  any item; nor does \<^verbatim>\<open>App.report\<close> on any stored collection, whatever the number of
  items that would be eligible.
\<close>

theorem dry_run_never_abandons:
  fixes c :: "('r, 's) collaborators"
  shows "filter is_Abandon (snd (cli c debug server_opt abandon False abandon_age usr output cmds)) = [] \<and>
         filter is_Abandon (snd (App_report c query title self tr)) = filter is_Abandon tr"
proof
  show "filter is_Abandon (snd (App_report c query title self tr)) = filter is_Abandon tr"
    by (rule App_report_Abandon)
  obtain r tr1 where cb: "cli_callback c debug server_opt abandon False abandon_age usr output cmds = (r, tr1)"
    by (cases "cli_callback c debug server_opt abandon False abandon_age usr output cmds")
  have quiet: "filter is_Abandon tr1 = []"
    using callback_Abandon [of c debug server_opt abandon False abandon_age usr "output" cmds] cb by simp
  show "filter is_Abandon (snd (cli c debug server_opt abandon False abandon_age usr output cmds)) = []"
  proof (cases r)
    case (Inl e)
    then show ?thesis using cb quiet by (simp add: cli_def)
  next
    case (Inr obj)
    then have "cli c debug server_opt abandon False abandon_age usr output cmds = invoke_chain c cmds obj tr1"
      using cb by (simp add: cli_def)
    then show ?thesis by (simp add: invoke_chain_Abandon quiet)
  qed
qed

text \<open>
  Claim C2 on the code. With \<^verbatim>\<open>--abandon --force\<close> and the default age of 90 days,
  \<^verbatim>\<open>owned\<close> lists the four open items of the two servers. Two of them (95 days with
  score -1, 120 days with score -2) have a negative score and are older than the
  threshold. The run prints the header, sends the two queries, logs and prints the
  items and the summary line, and ends: there is no abandon call among its events.
\<close>

theorem forced_abandon_not_invoked:
  "cli demo False None True True 90 ''self'' None [Owned] =
     (Inr \<lparr>cfg = Some [[(''url'', ''https://a.example/''), (''name'', ''A'')],
                       [(''url'', ''https://b.example/''), (''name'', ''B'')]],
           servers = [''A'', ''B''], user = ''self'',
           reviews = [Review (101, 5, 1, False) ''A'', Review (102, 95, - 1, False) ''A'',
                      Review (103, 120, - 2, False) ''A'', Review (7, 200, - 2, True) ''B'']\<rparr>,
      [LOG_warning ''Called with %s'',
       Term_print ''[dim]GRI using 2 servers: A B[/]'',
       Query ''A'' ''status:open owner:self'', Query ''B'' ''status:open owner:self'',
       LOG_debug (103, 120, - 2, False), LOG_debug (102, 95, - 1, False),
       LOG_debug (7, 200, - 2, True), LOG_debug (101, 5, 1, False),
       Term_print_table ''Own reviews'' [[''103'', ''A''], [''102'', ''A''], [''7'', ''B''], [''101'', ''A'']],
       Term_print ''[dim]-- 4 changes listed from: [cyan]status:open owner:self[/][/]''])"
proof -
  let ?obj = "\<lparr>cfg = Some [[(''url'', ''https://a.example/''), (''name'', ''A'')],
                       [(''url'', ''https://b.example/''), (''name'', ''B'')]],
           servers = [''A'', ''B''], user = ''self'', reviews = []\<rparr> :: (raw, string) App"
  let ?tr = "[LOG_warning ''Called with %s'', Term_print ''[dim]GRI using 2 servers: A B[/]''] :: (raw, string) trace"
  have q: "App_query demo ''status:open owner:self'' ?obj ?tr =
      (Inr (?obj\<lparr>reviews := demo_reviews\<rparr>),
       ?tr @ [Query ''A'' ''status:open owner:self'', Query ''B'' ''status:open owner:self''])"
    by (simp add: App_query_def demo_def demo_reviews_def)
  have p: "term_print demo ''[dim]-- 4 changes listed from: [cyan]status:open owner:self[/][/]'' = None"
    by (simp add: demo_def demo_console_def)
  have "owned demo ?obj ?tr =
      (Inr (?obj\<lparr>reviews := demo_reviews\<rparr>),
       ?tr @ [Query ''A'' ''status:open owner:self'', Query ''B'' ''status:open owner:self'',
       LOG_debug (103, 120, - 2, False), LOG_debug (102, 95, - 1, False),
       LOG_debug (7, 200, - 2, True), LOG_debug (101, 5, 1, False),
       Term_print_table ''Own reviews'' [[''103'', ''A''], [''102'', ''A''], [''7'', ''B''], [''101'', ''A'']],
       Term_print ''[dim]-- 4 changes listed from: [cyan]status:open owner:self[/][/]''])"
    by (simp add: owned_def owned_query_def App_report_query q demo_render summary_def demo_four p)
  then show ?thesis
    by (simp add: cli_def cli_callback_def demo_init quote_user_def save_output_def demo_reviews_def)
qed

subsection \<open>The user in the query strings\<close>

lemma queries_of_Query_map: "queries_of (map (\<lambda>s. Query s q) ss) = map (\<lambda>s. (s, q)) ss"
  by (induction ss) simp_all

lemma invoke_sends:
  assumes "\<forall>s\<in>set (servers obj). server_query c s (command_query cmd (user obj)) = Inr (recs s)"
  shows "queries_of (snd (invoke c cmd obj tr)) =
           queries_of tr @ map (\<lambda>s. (s, command_query cmd (user obj))) (servers obj)"
proof -
  let ?q = "command_query cmd (user obj)"
  obtain title where inv: "invoke c cmd obj tr = App_report c (Some ?q) title obj tr"
    using invoke_report by blast
  have "App_query c ?q obj tr =
      (Inr (obj\<lparr>reviews := merged_items recs (servers obj)\<rparr>), tr @ map (\<lambda>s. Query s ?q) (servers obj))"
    using assms by (simp add: App_query_all_succeed)
  then show ?thesis
    using command_query_not_Nil [of cmd "user obj"]
    by (simp add: inv App_report_query render_queries queries_of_append queries_of_Query_map)
qed

lemma demo_query:
  "servers self = [''A'', ''B''] \<Longrightarrow>
   App_query demo q self tr = (Inr (self\<lparr>reviews := demo_reviews\<rparr>), tr @ [Query ''A'' q, Query ''B'' q])"
  by (simp add: App_query_def demo_def demo_reviews_def)

text \<open>
  Claim C10. Every query string that a run of the command line sends to a server is
  the query of one of its subcommands (of \<^verbatim>\<open>owned\<close> when none is named) with the user
  embedded in the \<^verbatim>\<open>owner:\<close> or \<^verbatim>\<open>reviewer:\<close> clause: between double quotes when the
  user string contains a space, unchanged otherwise. A run that ends normally has
  sent, for each of its subcommands in order, that query to each server of the
  application, of which there is at least one; and a subcommand whose query every
  server answers has sent it to every server, whatever the console does afterwards.
\<close>

theorem user_quoted_in_queries:
  fixes c :: "('r, 's) collaborators"
  defines "w usr \<equiv> (if CHR '' '' \<in> set usr then [CHR 0x22] @ usr @ [CHR 0x22] else usr)"
  shows
  "(\<forall>(s, q)\<in>set (queries_of (snd (cli c debug server_opt abandon force abandon_age usr output cmds))).
      (q = ''status:open owner:'' @ w usr \<and> Owned \<in> set (effective cmds)) \<or>
      (q = ''reviewer:'' @ w usr @ '' status:open'' \<and> Incoming \<in> set (effective cmds)) \<or>
      (\<exists>days. q = '' status:merged -age:'' @ str_int days @ ''d owner:'' @ w usr \<and>
         Merged days \<in> set (effective cmds))) \<and>
   (fst (cli c debug server_opt abandon force abandon_age usr output cmds) = Inr obj' \<longrightarrow>
      servers obj' \<noteq> [] \<and> user obj' = w usr \<and>
      queries_of (snd (cli c debug server_opt abandon force abandon_age usr output cmds)) =
        concat (map (\<lambda>cmd. map (\<lambda>s. (s, command_query cmd (w usr))) (servers obj')) (effective cmds))) \<and>
   ((\<forall>s\<in>set (servers obj). server_query c s (command_query cmd (user obj)) = Inr (recs s)) \<longrightarrow>
      queries_of (snd (invoke c cmd obj tr)) =
        queries_of tr @ map (\<lambda>s. (s, command_query cmd (user obj))) (servers obj)) \<and>
   command_query Owned u = ''status:open owner:'' @ u \<and>
   command_query Incoming u = ''reviewer:'' @ u @ '' status:open'' \<and>
   command_query (Merged days) u = '' status:merged -age:'' @ str_int days @ ''d owner:'' @ u"
proof (intro conjI impI)
  have u: "quote_user usr = w usr" by (simp add: quote_user_def w_def)
  have "(q = ''status:open owner:'' @ w usr \<and> Owned \<in> set (effective cmds)) \<or>
      (q = ''reviewer:'' @ w usr @ '' status:open'' \<and> Incoming \<in> set (effective cmds)) \<or>
      (\<exists>days. q = '' status:merged -age:'' @ str_int days @ ''d owner:'' @ w usr \<and>
         Merged days \<in> set (effective cmds))"
    if sent: "(s, q) \<in> set (queries_of (snd (cli c debug server_opt abandon force abandon_age usr output cmds)))"
    for s q
  proof -
    have "q \<in> snd ` set (queries_of (snd (cli c debug server_opt abandon force abandon_age usr output cmds)))"
      using sent by force
    then have "q \<in> (\<lambda>cmd. command_query cmd (quote_user usr)) ` set (effective cmds)"
      using cli_queries by blast
    then obtain cmd where cmd: "cmd \<in> set (effective cmds)" "q = command_query cmd (w usr)"
      using u by auto
    show ?thesis
    proof (cases cmd)
      case Owned
      then have "q = ''status:open owner:'' @ w usr \<and> Owned \<in> set (effective cmds)"
        using cmd by (simp add: owned_query_def)
      then show ?thesis by (rule disjI1)
    next
      case Incoming
      then have "q = ''reviewer:'' @ w usr @ '' status:open'' \<and> Incoming \<in> set (effective cmds)"
        using cmd by (simp add: incoming_query_def)
      then show ?thesis by (intro disjI2 disjI1)
    next
      case (Merged days)
      then have "q = '' status:merged -age:'' @ str_int days @ ''d owner:'' @ w usr \<and>
          Merged days \<in> set (effective cmds)"
        using cmd by (simp add: merged_query_def)
      then show ?thesis by (intro disjI2 exI [of _ days])
    qed
  qed
  then show "\<forall>(s, q)\<in>set (queries_of (snd (cli c debug server_opt abandon force abandon_age usr output cmds))).
      (q = ''status:open owner:'' @ w usr \<and> Owned \<in> set (effective cmds)) \<or>
      (q = ''reviewer:'' @ w usr @ '' status:open'' \<and> Incoming \<in> set (effective cmds)) \<or>
      (\<exists>days. q = '' status:merged -age:'' @ str_int days @ ''d owner:'' @ w usr \<and>
         Merged days \<in> set (effective cmds))"
    by blast
  show "command_query Owned u = ''status:open owner:'' @ u" by (simp add: owned_query_def)
  show "command_query Incoming u = ''reviewer:'' @ u @ '' status:open''" by (simp add: incoming_query_def)
  show "command_query (Merged days) u = '' status:merged -age:'' @ str_int days @ ''d owner:'' @ u"
    by (simp add: merged_query_def)
  {
    assume "\<forall>s\<in>set (servers obj). server_query c s (command_query cmd (user obj)) = Inr (recs s)"
    then show "queries_of (snd (invoke c cmd obj tr)) =
        queries_of tr @ map (\<lambda>s. (s, command_query cmd (user obj))) (servers obj)"
      by (rule invoke_sends)
  }
  assume "fst (cli c debug server_opt abandon force abandon_age usr output cmds) = Inr obj'"
  then have sent: "servers obj' \<noteq> [] \<and> user obj' = quote_user usr \<and>
      queries_of (snd (cli c debug server_opt abandon force abandon_age usr output cmds)) =
        concat (map (\<lambda>cmd. map (\<lambda>s. (s, command_query cmd (quote_user usr))) (servers obj'))
                 (effective cmds))"
    by (rule cli_sent)
  from sent show "servers obj' \<noteq> []" by simp
  from sent show "user obj' = w usr" by (simp add: u)
  from sent show "queries_of (snd (cli c debug server_opt abandon force abandon_age usr output cmds)) =
      concat (map (\<lambda>cmd. map (\<lambda>s. (s, command_query cmd (w usr))) (servers obj')) (effective cmds))"
    by (simp add: u)
qed

lemma demo_merged_query: "merged_query 3 u = '' status:merged -age:3d owner:'' @ u"
  by (simp add: merged_query_def str_int_def str_nat.simps digit_def)

lemma demo_merged_title: "''Merged Reviews ('' @ str_int 3 @ ''d)'' = ''Merged Reviews (3d)''"
  by (simp add: str_int_def str_nat.simps digit_def)

lemma demo_quoted_run:
  "fst (cli demo False None False False 90 ''john doe'' None [Incoming, Merged 3]) =
     Inr \<lparr>cfg = Some [[(''url'', ''https://a.example/''), (''name'', ''A'')],
                      [(''url'', ''https://b.example/''), (''name'', ''B'')]],
          servers = [''A'', ''B''], user = [CHR 0x22] @ ''john doe'' @ [CHR 0x22],
          reviews = demo_reviews\<rparr>"
proof -
  let ?u = "[CHR 0x22] @ ''john doe'' @ [CHR 0x22]"
  have p1: "term_print demo (summary (length demo_reviews) (Some (incoming_query ?u))) = None"
    by (simp add: summary_def demo_four incoming_query_def demo_def demo_console_def)
  have p2: "term_print demo (summary (length demo_reviews) (Some (merged_query 3 ?u))) = None"
    by (simp add: summary_def demo_four demo_merged_query demo_def demo_console_def)
  have t2: "\<not> holds ''[/x]'' (''Merged Reviews ('' @ str_int 3 @ ''d)'')"
    by (simp only: demo_merged_title) simp
  have q1: "incoming_query ?u \<noteq> []" by (simp add: incoming_query_def)
  have q2: "merged_query 3 ?u \<noteq> []" by (simp add: demo_merged_query)
  have i: "incoming demo self tr =
      (Inr (self\<lparr>reviews := demo_reviews\<rparr>),
       tr @ [Query ''A'' (incoming_query ?u), Query ''B'' (incoming_query ?u),
             LOG_debug (103, 120, - 2, False), LOG_debug (102, 95, - 1, False),
             LOG_debug (7, 200, - 2, True), LOG_debug (101, 5, 1, False),
             Term_print_table ''Merged Reviews''
               [[''103'', ''A''], [''102'', ''A''], [''7'', ''B''], [''101'', ''A'']],
             Term_print (summary (length demo_reviews) (Some (incoming_query ?u)))])"
    if "servers self = [''A'', ''B'']" "user self = ?u" for self :: "(raw, string) App" and tr
    using that q1 p1 by (simp add: incoming_def App_report_query demo_query demo_render)
  have m: "merged demo 3 self tr =
      (Inr (self\<lparr>reviews := demo_reviews\<rparr>),
       tr @ [Query ''A'' (merged_query 3 ?u), Query ''B'' (merged_query 3 ?u),
             LOG_debug (103, 120, - 2, False), LOG_debug (102, 95, - 1, False),
             LOG_debug (7, 200, - 2, True), LOG_debug (101, 5, 1, False),
             Term_print_table (''Merged Reviews ('' @ str_int 3 @ ''d)'')
               [[''103'', ''A''], [''102'', ''A''], [''7'', ''B''], [''101'', ''A'']],
             Term_print (summary (length demo_reviews) (Some (merged_query 3 ?u)))])"
    if "servers self = [''A'', ''B'']" "user self = ?u" for self :: "(raw, string) App" and tr
    using that q2 p2 t2 by (simp add: merged_def App_report_query demo_query demo_render)
  have cb: "cli_callback demo False None False False 90 ''john doe'' None [Incoming, Merged 3] =
      (Inr \<lparr>cfg = Some [[(''url'', ''https://a.example/''), (''name'', ''A'')],
                      [(''url'', ''https://b.example/''), (''name'', ''B'')]],
          servers = [''A'', ''B''], user = ?u, reviews = []\<rparr>,
       [LOG_warning ''Called with %s'', Term_print ''[dim]GRI using 2 servers: A B[/]''])"
    by (simp add: cli_callback_def demo_init quote_user_def save_output_def)
  show ?thesis
    unfolding cli_def cb
    by (simp add: i m)
qed

theorem user_quoted_in_queries_witness:
  "fst (cli demo False None False False 90 ''john doe'' None [Incoming, Merged 3]) =
     Inr \<lparr>cfg = Some [[(''url'', ''https://a.example/''), (''name'', ''A'')],
                      [(''url'', ''https://b.example/''), (''name'', ''B'')]],
          servers = [''A'', ''B''], user = [CHR 0x22] @ ''john doe'' @ [CHR 0x22],
          reviews = demo_reviews\<rparr> \<and>
   queries_of (snd (cli demo False None False False 90 ''john doe'' None [Incoming, Merged 3])) =
     [(''A'', ''reviewer:'' @ [CHR 0x22] @ ''john doe'' @ [CHR 0x22] @ '' status:open''),
      (''B'', ''reviewer:'' @ [CHR 0x22] @ ''john doe'' @ [CHR 0x22] @ '' status:open''),
      (''A'', '' status:merged -age:3d owner:'' @ [CHR 0x22] @ ''john doe'' @ [CHR 0x22]),
      (''B'', '' status:merged -age:3d owner:'' @ [CHR 0x22] @ ''john doe'' @ [CHR 0x22])] \<and>
   server_query demo ''A'' (command_query (Merged 3) ''self'') =
     Inr [(101, 5, 1, False), (102, 95, - 1, False), (103, 120, - 2, False)] \<and>
   server_query demo ''B'' (command_query (Merged 3) ''self'') = Inr [(7, 200, - 2, True)] \<and>
   queries_of (snd (invoke demo (Merged 3) demo_app [])) =
     [(''A'', '' status:merged -age:3d owner:self''), (''B'', '' status:merged -age:3d owner:self'')]"
proof -
  let ?recs = "\<lambda>s. if s = ''A'' then [(101, 5, 1, False), (102, 95, - 1, False), (103, 120, - 2, False)]
                    else [(7, 200, - 2, True)] :: raw list"
  note th = user_quoted_in_queries [where c = demo and debug = False and server_opt = None
      and abandon = False and force = False and abandon_age = 90 and usr = "''john doe''"
      and cmds = "[Incoming, Merged 3]"
      and obj' = "\<lparr>cfg = Some [[(''url'', ''https://a.example/''), (''name'', ''A'')],
                      [(''url'', ''https://b.example/''), (''name'', ''B'')]],
          servers = [''A'', ''B''], user = [CHR 0x22] @ ''john doe'' @ [CHR 0x22],
          reviews = demo_reviews\<rparr>"
      and obj = demo_app and cmd = "Merged 3" and recs = ?recs and tr = "[]"]
  note completed = th [THEN conjunct2, THEN conjunct1, rule_format, OF demo_quoted_run]
  note sends = th [THEN conjunct2, THEN conjunct2, THEN conjunct1]
  have A: "server_query demo ''A'' q =
      Inr [(101, 5, 1, False), (102, 95, - 1, False), (103, 120, - 2, False)]" for q
    by (simp add: demo_def)
  have B: "server_query demo ''B'' q = Inr [(7, 200, - 2, True)]" for q
    by (simp add: demo_def)
  have 1: "queries_of (snd (cli demo False None False False 90 ''john doe'' None [Incoming, Merged 3])) =
     [(''A'', ''reviewer:'' @ [CHR 0x22] @ ''john doe'' @ [CHR 0x22] @ '' status:open''),
      (''B'', ''reviewer:'' @ [CHR 0x22] @ ''john doe'' @ [CHR 0x22] @ '' status:open''),
      (''A'', '' status:merged -age:3d owner:'' @ [CHR 0x22] @ ''john doe'' @ [CHR 0x22]),
      (''B'', '' status:merged -age:3d owner:'' @ [CHR 0x22] @ ''john doe'' @ [CHR 0x22])]"
    using completed
    by (simp add: effective_def incoming_query_def demo_merged_query)
  have 2: "queries_of (snd (invoke demo (Merged 3) demo_app [])) =
     [(''A'', '' status:merged -age:3d owner:self''), (''B'', '' status:merged -age:3d owner:self'')]"
    using sends A B
    by (simp add: demo_app_def demo_merged_query)
  show ?thesis using 1 2 A B demo_quoted_run by simp
qed

end
